theory Spec2Isabelle
  imports Main
begin

section \<open>Python values and errors\<close>

text \<open>
  The client of \<^verbatim>\<open>bitbucket_client.py\<close> is dynamically typed: what it fetches is
  decoded JSON, and what it returns is \<^verbatim>\<open>None\<close>, \<^verbatim>\<open>False\<close> or a dict. One datatype of
  Python values serves for both. A dict is an association list in iteration order (its keys
  are strings, as JSON object keys are); a JSON number is an integer here, since the module
  only ever tests a number for truth.
\<close>

datatype py =
    PNone
  | PBool bool
  | PInt int
  | PStr string
  | PList "py list"
  | PDict "(string \<times> py) list"

text \<open>
  Every exception the module can see: the two kinds the fetch collaborator raises, and the
  interpreter's own for a missing key, a value of the wrong type and a missing method.
\<close>

datatype error =
    DownloaderException string
  | ClientException string
  | KeyError string
  | TypeError
  | AttributeError

text \<open>Truth value testing (\<^verbatim>\<open>if not x\<close>, \<^verbatim>\<open>x or y\<close>).\<close>

fun truthy :: "py \<Rightarrow> bool" where
  "truthy PNone = False"
| "truthy (PBool b) = b"
| "truthy (PInt i) = (i \<noteq> 0)"
| "truthy (PStr s) = (s \<noteq> [])"
| "truthy (PList xs) = (xs \<noteq> [])"
| "truthy (PDict kvs) = (kvs \<noteq> [])"

definition py_or :: "py \<Rightarrow> py \<Rightarrow> py" where
  "py_or x y = (if truthy x then x else y)"

text \<open>\<^verbatim>\<open>obj[key]\<close> with a string key: only a dict can be subscripted that way.\<close>

fun getitem :: "py \<Rightarrow> string \<Rightarrow> error + py" where
  "getitem (PDict kvs) k = (case map_of kvs k of None \<Rightarrow> Inl (KeyError k) | Some v \<Rightarrow> Inr v)"
| "getitem _ k = Inl TypeError"

text \<open>\<^verbatim>\<open>obj[0:19]\<close>: strings and lists are sliced, everything else raises.\<close>

fun slice_0_19 :: "py \<Rightarrow> error + py" where
  "slice_0_19 (PStr s) = Inr (PStr (take 19 s))"
| "slice_0_19 (PList xs) = Inr (PList (take 19 xs))"
| "slice_0_19 _ = Inl TypeError"

text \<open>\<^verbatim>\<open>obj.keys()\<close>: only a dict has the method.\<close>

fun keys :: "py \<Rightarrow> error + string list" where
  "keys (PDict kvs) = Inr (map fst kvs)"
| "keys _ = Inl AttributeError"

text \<open>
  Characters are 8-bit here: text beyond ASCII is a sequence of bytes that encodes it. On
  ASCII text, Python's \<^verbatim>\<open>lower()\<close> changes the letters \<^verbatim>\<open>A\<close> to \<^verbatim>\<open>Z\<close> and nothing else.
\<close>

definition is_ascii :: "char \<Rightarrow> bool" where
  "is_ascii c = ((of_char c :: nat) < 128)"

definition lower_char :: "char \<Rightarrow> char" where
  "lower_char c =
     (let n = (of_char c :: nat) in if 65 \<le> n \<and> n \<le> 90 then char_of (n + 32) else c)"

text \<open>
  \<^verbatim>\<open>for entry in obj\<close>: the sequence of values the loop visits. A list yields its
  elements, a dict its keys, a string its characters; the other values are not iterable.
\<close>

fun iter :: "py \<Rightarrow> error + py list" where
  "iter (PList xs) = Inr xs"
| "iter (PDict kvs) = Inr (map (\<lambda>kv. PStr (fst kv)) kvs)"
| "iter (PStr s) = Inr (map (\<lambda>c. PStr [c]) s)"
| "iter _ = Inl TypeError"

section \<open>Regular expressions\<close>

text \<open>
  The fragment of Python's \<^verbatim>\<open>re\<close> that the module's five patterns use, with the
  engine's semantics: a pattern is a sequence of items, quantifiers are greedy and the
  matcher backtracks into them, \<^verbatim>\<open>.\<close> is any character but a newline, a negated class
  admits a newline, \<^verbatim>\<open>^\<close> holds at the start of the subject, \<^verbatim>\<open>$\<close> holds at its end and
  before a final newline.
\<close>

datatype atom =
    Chr char
  | Dot
  | OneOf "char list"
  | NotIn "char list"

datatype item =
    One atom
  | Opt atom
  | Plus atom
  | Star atom
  | Open nat
  | Close nat
  | Bos
  | Eos

fun accepts :: "atom \<Rightarrow> char \<Rightarrow> bool" where
  "accepts (Chr a) c = (c = a)"
| "accepts Dot c = (c \<noteq> CHR 0x0A)"
| "accepts (OneOf cs) c = (c \<in> set cs)"
| "accepts (NotIn cs) c = (c \<notin> set cs)"

text \<open>
  A match in progress: the text consumed so far, the text ahead, the start offsets of the
  groups that are open and the text of the groups that are closed. A successful match
  returns the text consumed, the text left and the groups.
\<close>

type_synonym rmatch = "string \<times> string \<times> (nat \<times> string) list"

fun rmatch :: "item list \<Rightarrow> string \<Rightarrow> string \<Rightarrow> (nat \<times> nat) list \<Rightarrow> (nat \<times> string) list
    \<Rightarrow> rmatch option" where
  "rmatch [] pre rest opens caps = Some (pre, rest, caps)"
| "rmatch (One a # r) pre rest opens caps =
     (case rest of
        [] \<Rightarrow> None
      | c # cs \<Rightarrow> if accepts a c then rmatch r (pre @ [c]) cs opens caps else None)"
| "rmatch (Opt a # r) pre rest opens caps =
     (case rest of
        [] \<Rightarrow> rmatch r pre rest opens caps
      | c # cs \<Rightarrow>
          if accepts a c then
            (case rmatch r (pre @ [c]) cs opens caps of
               Some m \<Rightarrow> Some m
             | None \<Rightarrow> rmatch r pre rest opens caps)
          else rmatch r pre rest opens caps)"
| "rmatch (Plus a # r) pre rest opens caps =
     (case rest of
        [] \<Rightarrow> None
      | c # cs \<Rightarrow> if accepts a c then rmatch (Star a # r) (pre @ [c]) cs opens caps else None)"
| "rmatch (Star a # r) pre rest opens caps =
     (case rest of
        [] \<Rightarrow> rmatch r pre rest opens caps
      | c # cs \<Rightarrow>
          if accepts a c then
            (case rmatch (Star a # r) (pre @ [c]) cs opens caps of
               Some m \<Rightarrow> Some m
             | None \<Rightarrow> rmatch r pre rest opens caps)
          else rmatch r pre rest opens caps)"
| "rmatch (Open n # r) pre rest opens caps = rmatch r pre rest ((n, length pre) # opens) caps"
| "rmatch (Close n # r) pre rest opens caps =
     (case map_of opens n of
        None \<Rightarrow> None
      | Some start \<Rightarrow> rmatch r pre rest opens ((n, drop start pre) # caps))"
| "rmatch (Bos # r) pre rest opens caps = (if pre = [] then rmatch r pre rest opens caps else None)"
| "rmatch (Eos # r) pre rest opens caps =
     (if rest = [] \<or> rest = [CHR 0x0A] then rmatch r pre rest opens caps else None)"

text \<open>\<^verbatim>\<open>re.match(pattern, string)\<close>: the pattern is tried at the start of the string only.\<close>

definition re_match :: "item list \<Rightarrow> string \<Rightarrow> rmatch option" where
  "re_match p s = rmatch p [] s [] []"

text \<open>\<^verbatim>\<open>m.group(n)\<close>: the text of group \<open>n\<close>, or \<^verbatim>\<open>None\<close> when the group took no part.\<close>

definition group :: "rmatch \<Rightarrow> nat \<Rightarrow> py" where
  "group m n = (case map_of (snd (snd m)) n of None \<Rightarrow> PNone | Some s \<Rightarrow> PStr s)"

text \<open>
  \<^verbatim>\<open>re.sub(pattern, repl, string)\<close> with a literal replacement: the subject is scanned from
  the left, every match is replaced and the scan goes on behind it; a character that starts
  no match is copied. The two patterns the module substitutes consume a character whenever
  they match; a match that consumes nothing is treated as no match at that place.
\<close>

function re_sub_from :: "item list \<Rightarrow> string \<Rightarrow> string \<Rightarrow> string \<Rightarrow> string" where
  "re_sub_from p repl pre [] = []"
| "re_sub_from p repl pre (c # cs) =
     (case rmatch p pre (c # cs) [] [] of
        Some (pre', rest', caps) \<Rightarrow>
          if length rest' < length (c # cs) then repl @ re_sub_from p repl pre' rest'
          else c # re_sub_from p repl (pre @ [c]) cs
      | None \<Rightarrow> c # re_sub_from p repl (pre @ [c]) cs)"
  by pat_completeness auto
termination
  by (relation "measure (\<lambda>(p, repl, pre, rest). length rest)") auto

definition re_sub :: "item list \<Rightarrow> string \<Rightarrow> py \<Rightarrow> error + py" where
  "re_sub p repl subject =
     (case subject of
        PStr s \<Rightarrow> Inr (PStr (re_sub_from p repl [] s))
      | _ \<Rightarrow> Inl TypeError)"

definition lit :: "string \<Rightarrow> item list" where
  "lit s = map (\<lambda>c. One (Chr c)) s"

text \<open>A string without its first character when that is a \<^verbatim>\<open>v\<close>: what the theorems
  below compare \<^verbatim>\<open>re.sub('^v', '', s)\<close> with.\<close>

definition strip_v :: "string \<Rightarrow> string" where
  "strip_v s = (case s of [] \<Rightarrow> [] | c # cs \<Rightarrow> if c = CHR ''v'' then cs else s)"

section \<open>The collaborators\<close>

text \<open>
  What the client consumes and does not own: the answer of the JSON fetch to a URL and a
  \<^verbatim>\<open>prefer_cached\<close> flag (a decoded value, or the collaborator's exception), the settings
  dict, the two functions imported from \<^verbatim>\<open>..versions\<close>, the interpreter's \<^verbatim>\<open>str()\<close> of a
  value that is not a string (what \<^verbatim>\<open>%s\<close> prints for it), and the interpreter's
  \<^verbatim>\<open>lower()\<close> of text that is not all ASCII, which follows the case mappings of Unicode
  (there the KELVIN SIGN, for one, becomes \<^verbatim>\<open>k\<close>).
\<close>

record world =
  response :: "string \<Rightarrow> bool \<Rightarrow> error + py"
  settings :: "(string \<times> py) list"
  version_filter :: "string list \<Rightarrow> py \<Rightarrow> string list"
  version_sort :: "string list \<Rightarrow> bool \<Rightarrow> string list"
  py_str :: "py \<Rightarrow> string"
  py_lower :: "string \<Rightarrow> string"

text \<open>\<^verbatim>\<open>d.get(key)\<close>: the value, or \<^verbatim>\<open>None\<close> for a missing key.\<close>

definition dict_get :: "(string \<times> py) list \<Rightarrow> string \<Rightarrow> py" where
  "dict_get d k = (case map_of d k of None \<Rightarrow> PNone | Some v \<Rightarrow> v)"

text \<open>The text \<^verbatim>\<open>%s\<close> inserts for a value.\<close>

definition fmt :: "world \<Rightarrow> py \<Rightarrow> string" where
  "fmt w v = (case v of PStr s \<Rightarrow> s | _ \<Rightarrow> py_str w v)"

text \<open>
  \<^verbatim>\<open>s.lower()\<close> on a string: the letters \<^verbatim>\<open>A\<close> to \<^verbatim>\<open>Z\<close> in lower case when the text is
  all ASCII, and what the interpreter makes of it otherwise.
\<close>

definition str_lower :: "world \<Rightarrow> string \<Rightarrow> string" where
  "str_lower w s = (if list_all is_ascii s then map lower_char s else py_lower w s)"

text \<open>\<^verbatim>\<open>obj.lower()\<close>: only a string has the method.\<close>

fun lower :: "world \<Rightarrow> py \<Rightarrow> error + py" where
  "lower w (PStr s) = Inr (PStr (str_lower w s))"
| "lower w _ = Inl AttributeError"

text \<open>
  A computation of the client either raises or returns, and issues fetches on the way. The
  fetches issued so far, in order, are the state that is passed along. The answer to a
  fetch is a function of the request alone.
\<close>

type_synonym call = "string \<times> bool"

type_synonym 'a io = "call list \<Rightarrow> (error + 'a) \<times> call list"

definition return :: "'a \<Rightarrow> 'a io" where
  "return x = (\<lambda>calls. (Inr x, calls))"

definition lift :: "error + 'a \<Rightarrow> 'a io" where
  "lift r = (\<lambda>calls. (r, calls))"

definition bind :: "'a io \<Rightarrow> ('a \<Rightarrow> 'b io) \<Rightarrow> 'b io" where
  "bind m f =
     (\<lambda>calls. case m calls of
        (Inl e, calls') \<Rightarrow> (Inl e, calls')
      | (Inr x, calls') \<Rightarrow> f x calls')"

text \<open>
  Modelled from the spec: \<^verbatim>\<open>JSONApiClient.fetch_json(url, prefer_cached=False)\<close> is
  inherited from \<^verbatim>\<open>json_api_client.py\<close>, which is not among the sources; it performs the
  request and returns the parsed structure or raises. Here it records the request and
  hands back the world's answer.
\<close>

definition fetch_json :: "world \<Rightarrow> string \<Rightarrow> bool \<Rightarrow> py io" where
  "fetch_json w url prefer_cached =
     (\<lambda>calls. (response w url prefer_cached, calls @ [(url, prefer_cached)]))"

text \<open>
  What it means for a computation to pass a failed fetch on: it only adds to the record of
  fetches, and if one of the fetches it adds failed, that fetch is the last one it issued
  and its exception is what the computation raises.
\<close>

definition propagates :: "world \<Rightarrow> 'a io \<Rightarrow> bool" where
  "propagates w m =
     (\<forall>calls. \<exists>new. snd (m calls) = calls @ new \<and>
        (\<forall>i < length new. \<forall>e. response w (fst (new ! i)) (snd (new ! i)) = Inl e \<longrightarrow>
           Suc i = length new \<and> fst (m calls) = Inl e))"

section \<open>The client\<close>

definition readme_filenames :: "string list" where
  "readme_filenames =
     [''readme'', ''readme.txt'', ''readme.md'', ''readme.mkd'', ''readme.mdown'',
      ''readme.markdown'', ''readme.textile'', ''readme.creole'', ''readme.rst'']"

text \<open>The prefix \<^verbatim>\<open>https?://bitbucket.org/\<close> that the three URL patterns share.\<close>

definition host_re :: "item list" where
  "host_re = lit ''http'' @ [Opt (Chr CHR ''s'')] @ lit ''://bitbucket'' @ [One Dot] @ lit ''org/''"

text \<open>\<^verbatim>\<open>https?://bitbucket.org/([^/]+/[^#/]+)/?#tags$\<close>\<close>

definition tags_re :: "item list" where
  "tags_re =
     host_re @ [Open 1, Plus (NotIn ''/''), One (Chr CHR ''/''), Plus (NotIn ''#/''), Close 1,
                Opt (Chr CHR ''/'')] @ lit ''#tags'' @ [Eos]"

text \<open>\<^verbatim>\<open>https?://bitbucket.org/([^/]+/[^/]+)/?$\<close>\<close>

definition repo_re :: "item list" where
  "repo_re =
     host_re @ [Open 1, Plus (NotIn ''/''), One (Chr CHR ''/''), Plus (NotIn ''/''), Close 1,
                Opt (Chr CHR ''/''), Eos]"

text \<open>\<^verbatim>\<open>https?://bitbucket.org/([^/]+/[^/]+)/src/([^/]+)/?$\<close>\<close>

definition branch_re :: "item list" where
  "branch_re =
     host_re @ [Open 1, Plus (NotIn ''/''), One (Chr CHR ''/''), Plus (NotIn ''/''), Close 1]
       @ lit ''/src/'' @ [Open 2, Plus (NotIn ''/''), Close 2, Opt (Chr CHR ''/''), Eos]"

text \<open>\<^verbatim>\<open>^v\<close> and \<^verbatim>\<open>[\-: ]\<close>\<close>

definition v_re :: "item list" where
  "v_re = [Bos, One (Chr CHR ''v'')]"

definition sep_re :: "item list" where
  "sep_re = [One (OneOf ''-: '')]"

definition make_api_url :: "world \<Rightarrow> py \<Rightarrow> string \<Rightarrow> string" where
  "make_api_url w user_repo suffix =
     ''https://api.bitbucket.org/1.0/repositories/'' @ fmt w user_repo @ suffix"

definition main_branch_name :: "world \<Rightarrow> py \<Rightarrow> py io" where
  "main_branch_name w user_repo =
     (let main_branch_url = make_api_url w user_repo ''/main-branch'' in
      bind (fetch_json w main_branch_url True) (\<lambda>main_branch_info.
      lift (getitem main_branch_info ''name'')))"

definition user_repo_branch :: "world \<Rightarrow> string \<Rightarrow> (py \<times> py) io" where
  "user_repo_branch w url =
     (let repo_match = re_match repo_re url;
          branch_match = re_match branch_re url
      in case repo_match of
           Some m \<Rightarrow>
             (let user_repo = group m 1 in
              bind (main_branch_name w user_repo) (\<lambda>branch.
              return (user_repo, branch)))
         | None \<Rightarrow>
             (case branch_match of
                Some m \<Rightarrow> return (group m 1, group m 2)
              | None \<Rightarrow> return (PNone, PNone)))"

text \<open>The loop of \<^verbatim>\<open>_readme_url\<close> over the entries of the root directory.\<close>

fun readme_scan :: "world \<Rightarrow> py \<Rightarrow> py \<Rightarrow> py list \<Rightarrow> error + py" where
  "readme_scan w user_repo branch [] = Inr PNone"
| "readme_scan w user_repo branch (entry # entries) =
     (case getitem entry ''path'' of
        Inl e \<Rightarrow> Inl e
      | Inr path \<Rightarrow>
          (case lower w path of
             Inl e \<Rightarrow> Inl e
           | Inr lowered \<Rightarrow>
               if lowered \<in> set (map PStr readme_filenames) then
                 Inr (PStr (''https://bitbucket.org/'' @ fmt w user_repo @ ''/raw/''
                            @ fmt w branch @ ''/'' @ fmt w path))
               else readme_scan w user_repo branch entries))"

definition readme_url :: "world \<Rightarrow> py \<Rightarrow> py \<Rightarrow> bool \<Rightarrow> py io" where
  "readme_url w user_repo branch prefer_cached =
     (let listing_url = make_api_url w user_repo (''/src/'' @ fmt w branch @ ''/'') in
      bind (fetch_json w listing_url prefer_cached) (\<lambda>root_dir_info.
      bind (lift (getitem root_dir_info ''files'')) (\<lambda>files.
      bind (lift (iter files)) (\<lambda>entries.
      lift (readme_scan w user_repo branch entries)))))"

text \<open>
  \<^verbatim>\<open>_commit_info\<close> is written here in its two halves. The first (lines 124 to 142) settles
  on \<^verbatim>\<open>user_repo\<close>, \<^verbatim>\<open>commit\<close> and \<^verbatim>\<open>version\<close>, or leaves the function early with
  \<^verbatim>\<open>False\<close> or with the \<^verbatim>\<open>user_repo\<close> that is not truthy: \<open>Inl\<close> is the early return,
  \<open>Inr\<close> the three variables. The second (lines 144 to 157) fetches the changeset and builds
  the dict.
\<close>

definition resolve_commit :: "world \<Rightarrow> string \<Rightarrow> (py + py \<times> py \<times> py) io" where
  "resolve_commit w url =
     (let tags_match = re_match tags_re url;
          version = PNone
      in case tags_match of
           Some m \<Rightarrow>
             (let user_repo = group m 1;
                  tags_url = make_api_url w user_repo ''/tags''
              in bind (fetch_json w tags_url False) (\<lambda>tags_list.
                 bind (lift (keys tags_list)) (\<lambda>names.
                 let tags = version_filter w names (dict_get (settings w) ''install_prereleases'');
                     tags = version_sort w tags True
                 in if tags = [] then return (Inl (PBool False))
                    else
                      (let commit = PStr (hd tags) in
                       bind (lift (re_sub v_re '''' commit)) (\<lambda>version.
                       return (Inr (user_repo, commit, version)))))))
         | None \<Rightarrow>
             bind (user_repo_branch w url) (\<lambda>(user_repo, commit).
             if \<not> truthy user_repo then return (Inl user_repo)
             else return (Inr (user_repo, commit, version))))"

definition changeset_info :: "world \<Rightarrow> py \<Rightarrow> py \<Rightarrow> py \<Rightarrow> py io" where
  "changeset_info w user_repo commit version =
     (let changeset_url = make_api_url w user_repo (''/changesets/'' @ fmt w commit) in
      bind (fetch_json w changeset_url False) (\<lambda>commit_info.
      bind (lift (getitem commit_info ''timestamp'')) (\<lambda>timestamp.
      bind (lift (slice_0_19 timestamp)) (\<lambda>commit_date.
      bind (if \<not> truthy version then lift (re_sub sep_re ''.'' commit_date)
            else return version) (\<lambda>version.
      return (PDict [(''user_repo'', user_repo), (''timestamp'', commit_date),
                     (''commit'', commit), (''version'', version)]))))))"

definition commit_info :: "world \<Rightarrow> string \<Rightarrow> py io" where
  "commit_info w url =
     bind (resolve_commit w url) (\<lambda>resolved.
     case resolved of
       Inl early \<Rightarrow> return early
     | Inr (user_repo, commit, version) \<Rightarrow> changeset_info w user_repo commit version)"

definition download_info :: "world \<Rightarrow> string \<Rightarrow> py io" where
  "download_info w url =
     bind (commit_info w url) (\<lambda>commit_info.
     if \<not> truthy commit_info then return commit_info
     else
       bind (lift (getitem commit_info ''version'')) (\<lambda>version.
       bind (lift (getitem commit_info ''user_repo'')) (\<lambda>user_repo.
       bind (lift (getitem commit_info ''commit'')) (\<lambda>commit.
       bind (lift (getitem commit_info ''timestamp'')) (\<lambda>timestamp.
       return (PDict [(''version'', version),
                      (''url'', PStr (''https://bitbucket.org/'' @ fmt w user_repo @ ''/get/''
                                      @ fmt w commit @ ''.zip'')),
                      (''date'', timestamp)]))))))"

definition repo_info :: "world \<Rightarrow> string \<Rightarrow> py io" where
  "repo_info w url =
     bind (user_repo_branch w url) (\<lambda>(user_repo, branch).
     if \<not> truthy user_repo then return user_repo
     else
       (let api_url = make_api_url w user_repo '''' in
        bind (fetch_json w api_url False) (\<lambda>info.
        let issues_url = ''https://bitbucket.org/'' @ fmt w user_repo @ ''/issues'' in
        bind (lift (getitem info ''name'')) (\<lambda>name.
        bind (lift (getitem info ''description'')) (\<lambda>description.
        bind (lift (getitem info ''website'')) (\<lambda>website.
        bind (lift (getitem info ''owner'')) (\<lambda>author.
        bind (lift (getitem info ''owner'')) (\<lambda>owner.
        bind (readme_url w user_repo branch False) (\<lambda>readme.
        bind (lift (getitem info ''has_issues'')) (\<lambda>has_issues.
        return (PDict [(''name'', name),
                       (''description'', py_or description (PStr ''No description provided'')),
                       (''homepage'', py_or website (PStr url)),
                       (''author'', author),
                       (''donate'', PStr (''https://www.gittip.com/on/bitbucket/'' @ fmt w owner
                                          @ ''/'')),
                       (''readme'', readme),
                       (''issues'', if truthy has_issues then PStr issues_url else PNone)
                      ])))))))))))"

section \<open>Semantic versions\<close>

text \<open>
  Modelled from the spec: \<^verbatim>\<open>version_filter\<close> and \<^verbatim>\<open>version_sort\<close> live in
  \<^verbatim>\<open>versions.py\<close>, which is not among the sources. The spec gives their contract:
  \<^verbatim>\<open>version_filter(collection_of_strings, allow_prereleases)\<close> drops the strings that are
  not parseable as versions and, unless allowed, the prereleases;
  \<^verbatim>\<open>version_sort(collection, reverse)\<close> orders by standard semantic-version precedence.
  A version is \<^verbatim>\<open>MAJOR.MINOR.PATCH\<close> with an optional \<^verbatim>\<open>-prerelease\<close> and an optional
  \<^verbatim>\<open>+build\<close>; the tag names of the spec's example carry a leading \<^verbatim>\<open>v\<close>, which is
  read over.
\<close>

datatype ident = Num nat | Alpha string

type_synonym semver = "nat \<times> nat \<times> nat \<times> ident list option"

fun split_on :: "char \<Rightarrow> string \<Rightarrow> string list" where
  "split_on sep [] = [[]]"
| "split_on sep (c # cs) =
     (if c = sep then [] # split_on sep cs
      else (case split_on sep cs of
              [] \<Rightarrow> [[c]]
            | part # parts \<Rightarrow> (c # part) # parts))"

definition is_digit :: "char \<Rightarrow> bool" where
  "is_digit c = (48 \<le> (of_char c :: nat) \<and> (of_char c :: nat) \<le> 57)"

definition number :: "string \<Rightarrow> nat option" where
  "number s =
     (if s \<noteq> [] \<and> list_all is_digit s
      then Some (foldl (\<lambda>n c. 10 * n + (of_char c - 48)) 0 s)
      else None)"

definition ident_of :: "string \<Rightarrow> ident" where
  "ident_of s = (case number s of Some n \<Rightarrow> Num n | None \<Rightarrow> Alpha s)"

definition parse_semver :: "string \<Rightarrow> semver option" where
  "parse_semver s =
     (let no_build = takeWhile (\<lambda>c. c \<noteq> CHR ''+'') (strip_v s);
          core = takeWhile (\<lambda>c. c \<noteq> CHR ''-'') no_build;
          pre = dropWhile (\<lambda>c. c \<noteq> CHR ''-'') no_build
      in case map number (split_on CHR ''.'' core) of
           [Some major, Some minor, Some patch] \<Rightarrow>
             (case pre of
                [] \<Rightarrow> Some (major, minor, patch, None)
              | dash # [] \<Rightarrow> None
              | dash # text \<Rightarrow>
                  Some (major, minor, patch, Some (map ident_of (split_on CHR ''.'' text))))
         | _ \<Rightarrow> None)"

fun string_less :: "string \<Rightarrow> string \<Rightarrow> bool" where
  "string_less [] [] = False"
| "string_less [] (d # ds) = True"
| "string_less (c # cs) [] = False"
| "string_less (c # cs) (d # ds) =
     ((of_char c :: nat) < of_char d \<or> (c = d \<and> string_less cs ds))"

fun ident_less :: "ident \<Rightarrow> ident \<Rightarrow> bool" where
  "ident_less (Num a) (Num b) = (a < b)"
| "ident_less (Num a) (Alpha t) = True"
| "ident_less (Alpha s) (Num b) = False"
| "ident_less (Alpha s) (Alpha t) = string_less s t"

fun idents_less :: "ident list \<Rightarrow> ident list \<Rightarrow> bool" where
  "idents_less [] [] = False"
| "idents_less [] (y # ys) = True"
| "idents_less (x # xs) [] = False"
| "idents_less (x # xs) (y # ys) =
     (ident_less x y \<or> (\<not> ident_less y x \<and> idents_less xs ys))"

text \<open>Precedence: the three numbers first; a prerelease comes before its release.\<close>

fun semver_less :: "semver \<Rightarrow> semver \<Rightarrow> bool" where
  "semver_less (a1, b1, c1, p1) (a2, b2, c2, p2) =
     (if a1 \<noteq> a2 then a1 < a2
      else if b1 \<noteq> b2 then b1 < b2
      else if c1 \<noteq> c2 then c1 < c2
      else (case (p1, p2) of
              (None, _) \<Rightarrow> False
            | (Some x, None) \<Rightarrow> True
            | (Some x, Some y) \<Rightarrow> idents_less x y))"

text \<open>A string that is no version sorts below every version.\<close>

definition version_less :: "string \<Rightarrow> string \<Rightarrow> bool" where
  "version_less s t =
     (case (parse_semver s, parse_semver t) of
        (_, None) \<Rightarrow> False
      | (None, Some y) \<Rightarrow> True
      | (Some x, Some y) \<Rightarrow> semver_less x y)"

definition version_filter_spec :: "string list \<Rightarrow> bool \<Rightarrow> string list" where
  "version_filter_spec versions allow_prereleases =
     filter (\<lambda>v. case parse_semver v of
                   None \<Rightarrow> False
                 | Some (major, minor, patch, pre) \<Rightarrow> allow_prereleases \<or> pre = None)
       versions"

fun insert_version :: "bool \<Rightarrow> string \<Rightarrow> string list \<Rightarrow> string list" where
  "insert_version reverse v [] = [v]"
| "insert_version reverse v (x # xs) =
     (if (if reverse then version_less v x else version_less x v)
      then x # insert_version reverse v xs
      else v # x # xs)"

definition version_sort_spec :: "string list \<Rightarrow> bool \<Rightarrow> string list" where
  "version_sort_spec sortable reverse = foldr (insert_version reverse) sortable []"

section \<open>A sample of the hosting service\<close>

text \<open>
  Answers of the service to the requests of a few repositories of one user: one with three
  release tags, a readme in capitals, no description, no website and an issue tracker, and
  with a branch whose readme has a capital beyond ASCII; one whose tags are no versions; one
  without an issue tracker. Every other request fails.
\<close>

text \<open>
  A file name with a capital that is not ASCII: \<^verbatim>\<open>README.M\<close>, the KELVIN SIGN (U+212A, in
  UTF-8 the bytes E2 84 AA) and \<^verbatim>\<open>D\<close>. Python's \<^verbatim>\<open>lower()\<close> makes \<^verbatim>\<open>readme.mkd\<close> of it.
\<close>

definition kelvin_readme :: string where
  "kelvin_readme = ''README.M'' @ [CHR 0xE2, CHR 0x84, CHR 0xAA] @ ''D''"

definition sample_responses :: "(string \<times> py) list" where
  "sample_responses =
     [(''https://api.bitbucket.org/1.0/repositories/user/repo/main-branch'',
         PDict [(''name'', PStr ''master'')]),
      (''https://api.bitbucket.org/1.0/repositories/user/repo'',
         PDict [(''name'', PStr ''repo''), (''description'', PStr ''''),
                (''website'', PStr ''''), (''owner'', PStr ''user''),
                (''has_issues'', PBool True)]),
      (''https://api.bitbucket.org/1.0/repositories/user/repo/src/master/'',
         PDict [(''directories'', PList []),
                (''files'', PList [PDict [(''path'', PStr ''setup.py''), (''size'', PInt 120)],
                                   PDict [(''path'', PStr ''README.MD''), (''size'', PInt 42)],
                                   PDict [(''path'', PStr ''readme.txt''), (''size'', PInt 7)]])]),
      (''https://api.bitbucket.org/1.0/repositories/user/repo/changesets/master'',
         PDict [(''node'', PStr ''abcdef012345''),
                (''timestamp'', PStr ''2014-03-12T10:00:00+00:00'')]),
      (''https://api.bitbucket.org/1.0/repositories/user/repo/tags'',
         PDict [(''v1.0.0'', PDict []), (''v2.0.0'', PDict []), (''v1.5.0'', PDict [])]),
      (''https://api.bitbucket.org/1.0/repositories/user/repo/changesets/v2.0.0'',
         PDict [(''node'', PStr ''0123456789ab''),
                (''timestamp'', PStr ''2014-03-12 10:00:00+00:00'')]),
      (''https://api.bitbucket.org/1.0/repositories/user/nightly/tags'',
         PDict [(''nightly'', PDict []), (''latest'', PDict []), (''v3.0.0-beta'', PDict [])]),
      (''https://api.bitbucket.org/1.0/repositories/user/quiet/main-branch'',
         PDict [(''name'', PStr ''default'')]),
      (''https://api.bitbucket.org/1.0/repositories/user/quiet'',
         PDict [(''name'', PStr ''quiet''), (''description'', PStr ''A quiet repository''),
                (''website'', PStr ''http://example.com/quiet''), (''owner'', PStr ''user''),
                (''has_issues'', PBool False)]),
      (''https://api.bitbucket.org/1.0/repositories/user/quiet/src/default/'',
         PDict [(''directories'', PList []), (''files'', PList [])]),
      (''https://api.bitbucket.org/1.0/repositories/user/repo/src/kelvin/'',
         PDict [(''directories'', PList []),
                (''files'', PList [PDict [(''path'', PStr kelvin_readme), (''size'', PInt 9)],
                                   PDict [(''path'', PStr ''readme.txt''), (''size'', PInt 7)]])])]"

text \<open>
  The sample's text beyond ASCII is UTF-8. Of the interpreter's lower-casing of such text
  the sample has what its one file name needs: the KELVIN SIGN becomes \<^verbatim>\<open>k\<close>, the letters
  \<^verbatim>\<open>A\<close> to \<^verbatim>\<open>Z\<close> become small, every other byte stays.
\<close>

fun sample_lower :: "string \<Rightarrow> string" where
  "sample_lower (a # b # c # s) =
     (if a = CHR 0xE2 \<and> b = CHR 0x84 \<and> c = CHR 0xAA then CHR ''k'' # sample_lower s
      else lower_char a # sample_lower (b # c # s))"
| "sample_lower (a # s) = lower_char a # sample_lower s"
| "sample_lower [] = []"

definition sample_world :: world where
  "sample_world =
     \<lparr> response = (\<lambda>url prefer_cached.
         case map_of sample_responses url of
           Some v \<Rightarrow> Inr v
         | None \<Rightarrow> Inl (DownloaderException ''HTTP Error 404'')),
       settings = [(''install_prereleases'', PBool False)],
       version_filter = (\<lambda>versions allow. version_filter_spec versions (truthy allow)),
       version_sort = version_sort_spec,
       py_str = (\<lambda>v. ''?''),
       py_lower = sample_lower \<rparr>"

section \<open>Running the client\<close>

lemmas io_defs = bind_def return_def lift_def fetch_json_def

lemma user_repo_branch_no_match:
  "re_match repo_re url = None \<Longrightarrow> re_match branch_re url = None \<Longrightarrow>
   user_repo_branch w url calls = (Inr (PNone, PNone), calls)"
  by (simp add: user_repo_branch_def return_def)

text \<open>
  C3. A URL that matches none of the accepted patterns (the repository root and the root
  with \<^verbatim>\<open>/src/{branch}\<close>; for \<^verbatim>\<open>download_info\<close> also the \<^verbatim>\<open>#tags\<close> form) makes both public
  operations return \<^verbatim>\<open>None\<close>, and no fetch is issued for it.
\<close>

theorem unmatched_url_returns_None:
  assumes "re_match repo_re url = None" and "re_match branch_re url = None"
  shows "repo_info w url calls = (Inr PNone, calls) \<and>
         (re_match tags_re url = None \<longrightarrow> download_info w url calls = (Inr PNone, calls))"
  using assms
  by (simp add: repo_info_def download_info_def commit_info_def resolve_commit_def bind_def return_def
      user_repo_branch_no_match)

theorem unmatched_url_returns_None_witness:
  "re_match repo_re ''https://bitbucket.org/user'' = None \<and>
   re_match branch_re ''https://bitbucket.org/user'' = None \<and>
   re_match tags_re ''https://bitbucket.org/user'' = None \<and>
   repo_info sample_world ''https://bitbucket.org/user'' [] = (Inr PNone, []) \<and>
   download_info sample_world ''https://bitbucket.org/user'' [] = (Inr PNone, [])"
proof -
  have r: "re_match repo_re ''https://bitbucket.org/user'' = None" by code_simp
  have b: "re_match branch_re ''https://bitbucket.org/user'' = None" by code_simp
  have t: "re_match tags_re ''https://bitbucket.org/user'' = None" by code_simp
  show ?thesis
    using unmatched_url_returns_None [OF r b, of sample_world "[]"] r b t by simp
qed

subsection \<open>Substitutions\<close>

lemma re_sub_from_sep:
  "re_sub_from sep_re ''.'' pre s =
     map (\<lambda>c. if c \<in> {CHR ''-'', CHR '':'', CHR '' ''} then CHR ''.'' else c) s"
proof (induction s arbitrary: pre)
  case Nil
  show ?case by simp
next
  case (Cons c cs)
  show ?case
    by (auto simp: sep_re_def Cons.IH [unfolded sep_re_def])
qed

lemma re_sub_from_v_later:
  "pre \<noteq> [] \<Longrightarrow> re_sub_from v_re '''' pre s = s"
proof (induction s arbitrary: pre)
  case Nil
  show ?case by simp
next
  case (Cons c cs)
  then show ?case
    by (simp add: v_re_def Cons.IH [unfolded v_re_def])
qed

lemma re_sub_from_v: "re_sub_from v_re '''' [] s = strip_v s"
proof (cases s)
  case Nil
  then show ?thesis by (simp add: strip_v_def)
next
  case (Cons c cs)
  then show ?thesis
    by (auto simp: strip_v_def v_re_def re_sub_from_v_later [unfolded v_re_def])
qed

lemma changeset_info_run:
  assumes "response w (make_api_url w user_repo (''/changesets/'' @ fmt w commit)) False = Inr info"
    and "getitem info ''timestamp'' = Inr timestamp"
    and "slice_0_19 timestamp = Inr commit_date"
  shows "changeset_info w user_repo commit version calls =
     (case (if \<not> truthy version then re_sub sep_re ''.'' commit_date else Inr version) of
        Inl e \<Rightarrow> Inl e
      | Inr v \<Rightarrow> Inr (PDict [(''user_repo'', user_repo), (''timestamp'', commit_date),
                              (''commit'', commit), (''version'', v)]),
      calls @ [(make_api_url w user_repo (''/changesets/'' @ fmt w commit), False)])"
  using assms by (simp add: changeset_info_def io_defs split: sum.splits)

text \<open>
  C1 (as amended). For a repository-root or branch URL (no tag pattern matched, so no
  version comes from a tag), \<^verbatim>\<open>download_info\<close> builds the version from the fetched commit
  timestamp: its first 19 characters, with every \<^verbatim>\<open>-\<close>, \<^verbatim>\<open>:\<close> and space replaced by
  \<^verbatim>\<open>.\<close> and every other character kept. For the timestamp
  \<^verbatim>\<open>2014-03-12T10:00:00+00:00\<close> the version is \<^verbatim>\<open>2014.03.12T10.00.00\<close>: the \<^verbatim>\<open>T\<close>
  stays.
\<close>

theorem synthesized_version:
  assumes "re_match tags_re url = None"
    and "user_repo_branch w url calls = (Inr (user_repo, commit), calls')"
    and "truthy user_repo"
    and "response w (make_api_url w user_repo (''/changesets/'' @ fmt w commit)) False = Inr info"
    and "getitem info ''timestamp'' = Inr (PStr timestamp)"
  shows "fst (download_info w url calls) =
           Inr (PDict
             [(''version'', PStr (map (\<lambda>c. if c \<in> {CHR ''-'', CHR '':'', CHR '' ''}
                                               then CHR ''.'' else c) (take 19 timestamp))),
              (''url'', PStr (''https://bitbucket.org/'' @ fmt w user_repo @ ''/get/''
                              @ fmt w commit @ ''.zip'')),
              (''date'', PStr (take 19 timestamp))]) \<and>
         (timestamp = ''2014-03-12T10:00:00+00:00'' \<longrightarrow>
            (\<exists>d. fst (download_info w url calls) = Inr d \<and>
                 getitem d ''version'' = Inr (PStr ''2014.03.12T10.00.00'')))"
proof -
  have ci: "commit_info w url calls =
      (Inr (PDict [(''user_repo'', user_repo), (''timestamp'', PStr (take 19 timestamp)),
                   (''commit'', commit),
                   (''version'', PStr (map (\<lambda>c. if c \<in> {CHR ''-'', CHR '':'', CHR '' ''}
                                               then CHR ''.'' else c) (take 19 timestamp)))]),
       calls' @ [(make_api_url w user_repo (''/changesets/'' @ fmt w commit), False)])"
    using assms(1,2,3)
    by (simp add: commit_info_def resolve_commit_def bind_def return_def
        changeset_info_run [OF assms(4,5)] re_sub_def re_sub_from_sep)
  have dl: "fst (download_info w url calls) =
           Inr (PDict
             [(''version'', PStr (map (\<lambda>c. if c \<in> {CHR ''-'', CHR '':'', CHR '' ''}
                                               then CHR ''.'' else c) (take 19 timestamp))),
              (''url'', PStr (''https://bitbucket.org/'' @ fmt w user_repo @ ''/get/''
                              @ fmt w commit @ ''.zip'')),
              (''date'', PStr (take 19 timestamp))])"
    by (simp add: download_info_def bind_def return_def lift_def ci)
  show ?thesis
    by (simp add: dl)
qed

theorem synthesized_version_witness:
  "re_match tags_re ''https://bitbucket.org/user/repo/src/master'' = None \<and>
   fst (download_info sample_world ''https://bitbucket.org/user/repo/src/master'' []) =
     Inr (PDict [(''version'', PStr ''2014.03.12T10.00.00''),
                 (''url'', PStr ''https://bitbucket.org/user/repo/get/master.zip''),
                 (''date'', PStr ''2014-03-12T10:00:00'')])"
proof -
  have t: "re_match tags_re ''https://bitbucket.org/user/repo/src/master'' = None"
    by code_simp
  have u: "user_repo_branch sample_world ''https://bitbucket.org/user/repo/src/master'' [] =
      (Inr (PStr ''user/repo'', PStr ''master''), [])"
    by code_simp
  have r: "response sample_world
      (make_api_url sample_world (PStr ''user/repo'')
         (''/changesets/'' @ fmt sample_world (PStr ''master''))) False =
      Inr (PDict [(''node'', PStr ''abcdef012345''),
                  (''timestamp'', PStr ''2014-03-12T10:00:00+00:00'')])"
    by code_simp
  have g: "getitem (PDict [(''node'', PStr ''abcdef012345''),
                  (''timestamp'', PStr ''2014-03-12T10:00:00+00:00'')]) ''timestamp'' =
       Inr (PStr ''2014-03-12T10:00:00+00:00'')"
    by simp
  have f: "fmt sample_world (PStr ''user/repo'') = ''user/repo''"
          "fmt sample_world (PStr ''master'') = ''master''"
    by (simp_all add: fmt_def)
  show ?thesis
    using synthesized_version [OF t u _ r g] t by (simp add: f)
qed

text \<open>
  C1 as stated gives \<^verbatim>\<open>2014.03.12.10.00.00\<close> for that timestamp; the client returns
  \<^verbatim>\<open>2014.03.12T10.00.00\<close>.
\<close>

theorem synthesized_version_counterexample:
  "response sample_world
     ''https://api.bitbucket.org/1.0/repositories/user/repo/changesets/master'' False =
     Inr (PDict [(''node'', PStr ''abcdef012345''),
                 (''timestamp'', PStr ''2014-03-12T10:00:00+00:00'')]) \<and>
   download_info sample_world ''https://bitbucket.org/user/repo/src/master'' [] =
     (Inr (PDict [(''version'', PStr ''2014.03.12T10.00.00''),
                  (''url'', PStr ''https://bitbucket.org/user/repo/get/master.zip''),
                  (''date'', PStr ''2014-03-12T10:00:00'')]),
      [(''https://api.bitbucket.org/1.0/repositories/user/repo/changesets/master'', False)]) \<and>
   ''2014.03.12T10.00.00'' \<noteq> ''2014.03.12.10.00.00''"
  by code_simp

text \<open>
  C2. For a URL that matches the \<^verbatim>\<open>#tags\<close> pattern, when the version filter (given the
  \<^verbatim>\<open>install_prereleases\<close> setting) leaves no tag name, and sorting nothing yields nothing,
  \<^verbatim>\<open>download_info\<close> returns \<^verbatim>\<open>False\<close>: not \<^verbatim>\<open>None\<close>, not an exception. The one fetch
  issued is that of the tags.
\<close>

theorem no_eligible_tag_returns_False:
  assumes "re_match tags_re url = Some m"
    and "response w (make_api_url w (group m 1) ''/tags'') False = Inr tags_list"
    and "keys tags_list = Inr names"
    and "version_filter w names (dict_get (settings w) ''install_prereleases'') = []"
    and "version_sort w [] True = []"
  shows "download_info w url calls =
           (Inr (PBool False), calls @ [(make_api_url w (group m 1) ''/tags'', False)])"
  using assms
  by (simp add: download_info_def commit_info_def resolve_commit_def io_defs Let_def)

theorem no_eligible_tag_returns_False_witness:
  "re_match tags_re ''https://bitbucket.org/user/nightly/#tags'' =
     Some (''https://bitbucket.org/user/nightly/#tags'', [], [(1, ''user/nightly'')]) \<and>
   keys (PDict [(''nightly'', PDict []), (''latest'', PDict []), (''v3.0.0-beta'', PDict [])]) =
     Inr [''nightly'', ''latest'', ''v3.0.0-beta''] \<and>
   version_filter sample_world [''nightly'', ''latest'', ''v3.0.0-beta'']
     (dict_get (settings sample_world) ''install_prereleases'') = [] \<and>
   download_info sample_world ''https://bitbucket.org/user/nightly/#tags'' [] =
     (Inr (PBool False), [(''https://api.bitbucket.org/1.0/repositories/user/nightly/tags'', False)])"
proof -
  have m: "re_match tags_re ''https://bitbucket.org/user/nightly/#tags'' =
     Some (''https://bitbucket.org/user/nightly/#tags'', [], [(1, ''user/nightly'')])"
    by code_simp
  have g: "group (''https://bitbucket.org/user/nightly/#tags'', [], [(1, ''user/nightly'')]) 1
      = PStr ''user/nightly''"
    by (simp add: group_def)
  have u: "make_api_url sample_world (PStr ''user/nightly'') ''/tags'' =
      ''https://api.bitbucket.org/1.0/repositories/user/nightly/tags''"
    by (simp add: make_api_url_def fmt_def)
  have r: "response sample_world
      (make_api_url sample_world
         (group (''https://bitbucket.org/user/nightly/#tags'', [], [(1, ''user/nightly'')]) 1)
         ''/tags'') False =
      Inr (PDict [(''nightly'', PDict []), (''latest'', PDict []), (''v3.0.0-beta'', PDict [])])"
    unfolding g u by code_simp
  have k: "keys (PDict [(''nightly'', PDict []), (''latest'', PDict []),
                        (''v3.0.0-beta'', PDict [])]) =
     Inr [''nightly'', ''latest'', ''v3.0.0-beta'']"
    by simp
  have f: "version_filter sample_world [''nightly'', ''latest'', ''v3.0.0-beta'']
     (dict_get (settings sample_world) ''install_prereleases'') = []"
    by code_simp
  have s: "version_sort sample_world [] True = []"
    by code_simp
  show ?thesis
    using no_eligible_tag_returns_False [OF m r k f s, of "[]"] m k f
    by (simp add: g [unfolded One_nat_def] u [unfolded One_nat_def] make_api_url_def fmt_def)
qed

text \<open>
  C4. For a URL that matches the \<^verbatim>\<open>#tags\<close> pattern, \<^verbatim>\<open>download_info\<close> passes the fetched
  tag names through \<^verbatim>\<open>version_filter\<close> with the \<^verbatim>\<open>install_prereleases\<close> setting, sorts the
  result with \<^verbatim>\<open>version_sort\<close> in reverse, takes the first tag, fetches its changeset and
  reports the tag without one leading \<^verbatim>\<open>v\<close> as the version (the tag being more than a
  bare \<^verbatim>\<open>v\<close>, as every version is). With the filter and the sort of the spec, the tags
  \<^verbatim>\<open>v1.0.0\<close>, \<^verbatim>\<open>v2.0.0\<close>, \<^verbatim>\<open>v1.5.0\<close> and prereleases disallowed give the tag
  \<^verbatim>\<open>v2.0.0\<close> first, and the version \<^verbatim>\<open>2.0.0\<close>.
\<close>

theorem highest_tag_selected:
  assumes "re_match tags_re url = Some m"
    and "response w (make_api_url w (group m 1) ''/tags'') False = Inr tags_list"
    and "keys tags_list = Inr names"
    and "version_sort w (version_filter w names (dict_get (settings w) ''install_prereleases''))
           True = tag # others"
    and "strip_v tag \<noteq> []"
    and "response w (make_api_url w (group m 1) (''/changesets/'' @ tag)) False = Inr info"
    and "getitem info ''timestamp'' = Inr timestamp"
    and "slice_0_19 timestamp = Inr commit_date"
  shows "fst (download_info w url calls) =
           Inr (PDict [(''version'', PStr (strip_v tag)),
                       (''url'', PStr (''https://bitbucket.org/'' @ fmt w (group m 1) @ ''/get/''
                                       @ tag @ ''.zip'')),
                       (''date'', commit_date)]) \<and>
         version_sort_spec (version_filter_spec [''v1.0.0'', ''v2.0.0'', ''v1.5.0''] False) True =
           [''v2.0.0'', ''v1.5.0'', ''v1.0.0''] \<and>
         strip_v ''v2.0.0'' = ''2.0.0''"
proof -
  have f: "fmt w (PStr tag) = tag"
    by (simp add: fmt_def)
  have cs: "changeset_info w (group m 1) (PStr tag) (PStr (strip_v tag)) cs =
      (Inr (PDict [(''user_repo'', group m 1), (''timestamp'', commit_date),
                   (''commit'', PStr tag), (''version'', PStr (strip_v tag))]),
       cs @ [(make_api_url w (group m 1) (''/changesets/'' @ tag), False)])" for cs
    using changeset_info_run [of w "group m 1" "PStr tag", unfolded f, OF assms(6,7,8)] assms(5)
    by simp
  have ci: "commit_info w url calls =
      (Inr (PDict [(''user_repo'', group m 1), (''timestamp'', commit_date),
                   (''commit'', PStr tag), (''version'', PStr (strip_v tag))]),
       calls @ [(make_api_url w (group m 1) ''/tags'', False),
                (make_api_url w (group m 1) (''/changesets/'' @ tag), False)])"
    using assms(1,2,3,4)
    by (simp add: commit_info_def resolve_commit_def io_defs Let_def re_sub_def re_sub_from_v
        cs [unfolded One_nat_def])
  have dl: "fst (download_info w url calls) =
           Inr (PDict [(''version'', PStr (strip_v tag)),
                       (''url'', PStr (''https://bitbucket.org/'' @ fmt w (group m 1) @ ''/get/''
                                       @ tag @ ''.zip'')),
                       (''date'', commit_date)])"
    by (simp add: download_info_def bind_def return_def lift_def ci f)
  have ex: "version_sort_spec (version_filter_spec [''v1.0.0'', ''v2.0.0'', ''v1.5.0''] False) True =
           [''v2.0.0'', ''v1.5.0'', ''v1.0.0'']"
    by code_simp
  have sv: "strip_v ''v2.0.0'' = ''2.0.0''"
    by (simp add: strip_v_def)
  show ?thesis
    using dl ex sv by simp
qed

theorem highest_tag_selected_witness:
  "re_match tags_re ''https://bitbucket.org/user/repo/#tags'' =
     Some (''https://bitbucket.org/user/repo/#tags'', [], [(1, ''user/repo'')]) \<and>
   keys (PDict [(''v1.0.0'', PDict []), (''v2.0.0'', PDict []), (''v1.5.0'', PDict [])]) =
     Inr [''v1.0.0'', ''v2.0.0'', ''v1.5.0''] \<and>
   dict_get (settings sample_world) ''install_prereleases'' = PBool False \<and>
   version_sort sample_world
     (version_filter sample_world [''v1.0.0'', ''v2.0.0'', ''v1.5.0''] (PBool False)) True =
     [''v2.0.0'', ''v1.5.0'', ''v1.0.0''] \<and>
   fst (download_info sample_world ''https://bitbucket.org/user/repo/#tags'' []) =
     Inr (PDict [(''version'', PStr ''2.0.0''),
                 (''url'', PStr ''https://bitbucket.org/user/repo/get/v2.0.0.zip''),
                 (''date'', PStr ''2014-03-12 10:00:00'')])"
proof -
  have m: "re_match tags_re ''https://bitbucket.org/user/repo/#tags'' =
     Some (''https://bitbucket.org/user/repo/#tags'', [], [(1, ''user/repo'')])"
    by code_simp
  have g: "group (''https://bitbucket.org/user/repo/#tags'', [], [(1, ''user/repo'')]) 1
      = PStr ''user/repo''"
    by (simp add: group_def)
  have r: "response sample_world
      (make_api_url sample_world
         (group (''https://bitbucket.org/user/repo/#tags'', [], [(1, ''user/repo'')]) 1)
         ''/tags'') False =
      Inr (PDict [(''v1.0.0'', PDict []), (''v2.0.0'', PDict []), (''v1.5.0'', PDict [])])"
    unfolding g by code_simp
  have k: "keys (PDict [(''v1.0.0'', PDict []), (''v2.0.0'', PDict []), (''v1.5.0'', PDict [])]) =
     Inr [''v1.0.0'', ''v2.0.0'', ''v1.5.0'']"
    by simp
  have p: "dict_get (settings sample_world) ''install_prereleases'' = PBool False"
    by code_simp
  have s: "version_sort sample_world
     (version_filter sample_world [''v1.0.0'', ''v2.0.0'', ''v1.5.0'']
        (dict_get (settings sample_world) ''install_prereleases'')) True =
     ''v2.0.0'' # [''v1.5.0'', ''v1.0.0'']"
    by code_simp
  have v: "strip_v ''v2.0.0'' \<noteq> []"
    by (simp add: strip_v_def)
  have c: "response sample_world
      (make_api_url sample_world
         (group (''https://bitbucket.org/user/repo/#tags'', [], [(1, ''user/repo'')]) 1)
         (''/changesets/'' @ ''v2.0.0'')) False =
      Inr (PDict [(''node'', PStr ''0123456789ab''),
                  (''timestamp'', PStr ''2014-03-12 10:00:00+00:00'')])"
    unfolding g by code_simp
  have t: "getitem (PDict [(''node'', PStr ''0123456789ab''),
                  (''timestamp'', PStr ''2014-03-12 10:00:00+00:00'')]) ''timestamp'' =
       Inr (PStr ''2014-03-12 10:00:00+00:00'')"
    by simp
  have d: "slice_0_19 (PStr ''2014-03-12 10:00:00+00:00'') = Inr (PStr ''2014-03-12 10:00:00'')"
    by simp
  show ?thesis
    using highest_tag_selected [OF m r k s v c t d, of "[]"] m k p s
    by (simp add: g [unfolded One_nat_def] fmt_def strip_v_def)
qed

subsection \<open>The readme\<close>

lemma str_lower_ascii: "list_all is_ascii s \<Longrightarrow> str_lower w s = map lower_char s"
  by (simp add: str_lower_def)

lemma readme_scan_find:
  assumes "list_all2 (\<lambda>entry path. getitem entry ''path'' = Inr (PStr path)) entries paths"
  shows "readme_scan w user_repo branch entries =
     Inr (case find (\<lambda>p. str_lower w p \<in> set readme_filenames) paths of
            None \<Rightarrow> PNone
          | Some p \<Rightarrow> PStr (''https://bitbucket.org/'' @ fmt w user_repo @ ''/raw/''
                             @ fmt w branch @ ''/'' @ p))"
  using assms
proof (induction entries paths rule: list_all2_induct)
  case Nil
  show ?case by simp
next
  case (Cons entry entries path paths)
  have mem: "(PStr (str_lower w path) \<in> PStr ` set readme_filenames)
      = (str_lower w path \<in> set readme_filenames)"
    by auto
  show ?case
    using Cons.hyps(1) Cons.IH by (simp add: mem fmt_def)
qed

text \<open>
  C6. \<^verbatim>\<open>_readme_url\<close> fetches the listing of the branch's root directory and goes through
  its files in order. It returns the raw-content URL of the first entry whose path, put in
  lower case by Python's \<^verbatim>\<open>lower()\<close>, is one of the nine names of \<^verbatim>\<open>_readme_filenames\<close>,
  built with the path as listed, and \<^verbatim>\<open>None\<close> when no entry matches. The first match in
  listing order wins, whichever spelling it is. Whatever the interpreter does beyond ASCII,
  \<^verbatim>\<open>README.MD\<close> in lower case is \<^verbatim>\<open>readme.md\<close>, so that name matches.
\<close>

theorem readme_first_match:
  assumes "response w (make_api_url w user_repo (''/src/'' @ fmt w branch @ ''/'')) prefer_cached
             = Inr listing"
    and "getitem listing ''files'' = Inr (PList entries)"
    and "list_all2 (\<lambda>entry path. getitem entry ''path'' = Inr (PStr path)) entries paths"
  shows "fst (readme_url w user_repo branch prefer_cached calls) =
     Inr (case find (\<lambda>p. str_lower w p \<in> set readme_filenames) paths of
            None \<Rightarrow> PNone
          | Some p \<Rightarrow> PStr (''https://bitbucket.org/'' @ fmt w user_repo @ ''/raw/''
                             @ fmt w branch @ ''/'' @ p)) \<and>
     str_lower w ''README.MD'' = ''readme.md'' \<and>
     ''readme.md'' \<in> set readme_filenames"
proof -
  have run: "fst (readme_url w user_repo branch prefer_cached calls) =
     Inr (case find (\<lambda>p. str_lower w p \<in> set readme_filenames) paths of
            None \<Rightarrow> PNone
          | Some p \<Rightarrow> PStr (''https://bitbucket.org/'' @ fmt w user_repo @ ''/raw/''
                             @ fmt w branch @ ''/'' @ p))"
    using assms(1,2)
    by (simp add: readme_url_def io_defs readme_scan_find [OF assms(3)])
  have ascii: "list_all is_ascii ''README.MD''"
    by (simp add: is_ascii_def)
  have small: "map lower_char ''README.MD'' = ''readme.md''"
    by code_simp
  have low: "str_lower w ''README.MD'' = ''readme.md''"
    unfolding str_lower_ascii [OF ascii] by (rule small)
  have mem: "''readme.md'' \<in> set readme_filenames"
    by (simp add: readme_filenames_def)
  show ?thesis
    using run low mem by simp
qed

theorem readme_first_match_witness:
  "list_all2 (\<lambda>entry path. getitem entry ''path'' = Inr (PStr path))
     [PDict [(''path'', PStr ''setup.py''), (''size'', PInt 120)],
      PDict [(''path'', PStr ''README.MD''), (''size'', PInt 42)],
      PDict [(''path'', PStr ''readme.txt''), (''size'', PInt 7)]]
     [''setup.py'', ''README.MD'', ''readme.txt''] \<and>
   find (\<lambda>p. str_lower sample_world p \<in> set readme_filenames)
     [''setup.py'', ''README.MD'', ''readme.txt''] = Some ''README.MD'' \<and>
   fst (readme_url sample_world (PStr ''user/repo'') (PStr ''master'') False []) =
     Inr (PStr ''https://bitbucket.org/user/repo/raw/master/README.MD'')"
proof -
  have f: "fmt sample_world (PStr ''master'') = ''master''"
          "fmt sample_world (PStr ''user/repo'') = ''user/repo''"
    by (simp_all add: fmt_def)
  have r: "response sample_world
      (make_api_url sample_world (PStr ''user/repo'')
         (''/src/'' @ fmt sample_world (PStr ''master'') @ ''/'')) False =
      Inr (PDict [(''directories'', PList []),
                (''files'', PList [PDict [(''path'', PStr ''setup.py''), (''size'', PInt 120)],
                                   PDict [(''path'', PStr ''README.MD''), (''size'', PInt 42)],
                                   PDict [(''path'', PStr ''readme.txt''), (''size'', PInt 7)]])])"
    by code_simp
  have g: "getitem (PDict [(''directories'', PList []),
                (''files'', PList [PDict [(''path'', PStr ''setup.py''), (''size'', PInt 120)],
                                   PDict [(''path'', PStr ''README.MD''), (''size'', PInt 42)],
                                   PDict [(''path'', PStr ''readme.txt''), (''size'', PInt 7)]])])
             ''files'' =
      Inr (PList [PDict [(''path'', PStr ''setup.py''), (''size'', PInt 120)],
                  PDict [(''path'', PStr ''README.MD''), (''size'', PInt 42)],
                  PDict [(''path'', PStr ''readme.txt''), (''size'', PInt 7)]])"
    by simp
  have l: "list_all2 (\<lambda>entry path. getitem entry ''path'' = Inr (PStr path))
     [PDict [(''path'', PStr ''setup.py''), (''size'', PInt 120)],
      PDict [(''path'', PStr ''README.MD''), (''size'', PInt 42)],
      PDict [(''path'', PStr ''readme.txt''), (''size'', PInt 7)]]
     [''setup.py'', ''README.MD'', ''readme.txt'']"
    by simp
  have n: "find (\<lambda>p. str_lower sample_world p \<in> set readme_filenames)
      [''setup.py'', ''README.MD'', ''readme.txt''] = Some ''README.MD''"
    by code_simp
  show ?thesis
    using readme_first_match [OF r g l, of "[]"] l n by (simp add: f)
qed

text \<open>
  A capital beyond ASCII counts as well: with the KELVIN SIGN for its \<^verbatim>\<open>K\<close>, the first file
  of the sample's \<^verbatim>\<open>kelvin\<close> branch is \<^verbatim>\<open>readme.mkd\<close> in lower case, and it wins over the
  \<^verbatim>\<open>readme.txt\<close> behind it.
\<close>

lemma readme_kelvin_sign:
  "str_lower sample_world kelvin_readme = ''readme.mkd'' \<and>
   fst (readme_url sample_world (PStr ''user/repo'') (PStr ''kelvin'') False []) =
     Inr (PStr (''https://bitbucket.org/user/repo/raw/kelvin/'' @ kelvin_readme))"
  by code_simp

subsection \<open>Repository information\<close>

lemma group_cases: "group m n = PNone \<or> (\<exists>s. group m n = PStr s)"
  by (simp add: group_def split: option.splits)

lemma user_repo_branch_str:
  assumes "user_repo_branch w url calls = (Inr (user_repo, branch), calls')"
  shows "user_repo = PNone \<or> (\<exists>s. user_repo = PStr s)"
  using assms group_cases [of _ 1]
  by (auto simp: user_repo_branch_def io_defs Let_def
      split: option.splits sum.splits prod.splits)

lemma repo_info_returns_dict:
  assumes "repo_info w url calls = (Inr (PDict d), calls')"
  shows "\<exists>user_repo branch calls1 info name description website owner readme has_issues.
      user_repo_branch w url calls = (Inr (PStr user_repo, branch), calls1) \<and>
      response w (make_api_url w (PStr user_repo) '''') False = Inr info \<and>
      getitem info ''name'' = Inr name \<and>
      getitem info ''description'' = Inr description \<and>
      getitem info ''website'' = Inr website \<and>
      getitem info ''owner'' = Inr owner \<and>
      readme_url w (PStr user_repo) branch False
        (calls1 @ [(make_api_url w (PStr user_repo) '''', False)]) = (Inr readme, calls') \<and>
      getitem info ''has_issues'' = Inr has_issues \<and>
      d = [(''name'', name),
           (''description'', py_or description (PStr ''No description provided'')),
           (''homepage'', py_or website (PStr url)),
           (''author'', owner),
           (''donate'', PStr (''https://www.gittip.com/on/bitbucket/'' @ fmt w owner @ ''/'')),
           (''readme'', readme),
           (''issues'', if truthy has_issues
                        then PStr (''https://bitbucket.org/'' @ user_repo @ ''/issues'')
                        else PNone)]"
proof -
  obtain r1 calls1 where u: "user_repo_branch w url calls = (r1, calls1)"
    by (cases "user_repo_branch w url calls")
  show ?thesis
  proof (cases r1)
    case (Inl e)
    with assms u show ?thesis
      by (simp add: repo_info_def bind_def)
  next
    case (Inr p)
    obtain user_repo branch where p: "p = (user_repo, branch)"
      by (cases p)
    have ub: "user_repo_branch w url calls = (Inr (user_repo, branch), calls1)"
      using u Inr p by simp
    from user_repo_branch_str [OF ub] show ?thesis
    proof
      assume "user_repo = PNone"
      with assms ub show ?thesis
        by (simp add: repo_info_def bind_def return_def)
    next
      assume "\<exists>s. user_repo = PStr s"
      then obtain s where s: "user_repo = PStr s" ..
      show ?thesis
        using assms ub s
        by (auto simp: repo_info_def io_defs Let_def fmt_def split: sum.splits if_splits prod.splits)
    qed
  qed
qed

lemma repo_info_fst_dict:
  assumes "fst (repo_info w url calls) = Inr (PDict d)"
  shows "\<exists>user_repo branch info name description website owner readme has_issues.
      fst (user_repo_branch w url calls) = Inr (PStr user_repo, branch) \<and>
      response w (make_api_url w (PStr user_repo) '''') False = Inr info \<and>
      getitem info ''description'' = Inr description \<and>
      getitem info ''website'' = Inr website \<and>
      getitem info ''has_issues'' = Inr has_issues \<and>
      d = [(''name'', name),
           (''description'', py_or description (PStr ''No description provided'')),
           (''homepage'', py_or website (PStr url)),
           (''author'', owner),
           (''donate'', PStr (''https://www.gittip.com/on/bitbucket/'' @ fmt w owner @ ''/'')),
           (''readme'', readme),
           (''issues'', if truthy has_issues
                        then PStr (''https://bitbucket.org/'' @ user_repo @ ''/issues'')
                        else PNone)]"
proof -
  obtain calls' where "repo_info w url calls = (Inr (PDict d), calls')"
    using assms by (cases "repo_info w url calls") simp
  from repo_info_returns_dict [OF this] show ?thesis
    by (metis fst_conv)
qed

text \<open>
  C7. In the dict that \<^verbatim>\<open>repo_info\<close> returns, \<^verbatim>\<open>issues\<close> is \<^verbatim>\<open>None\<close> exactly when
  \<^verbatim>\<open>has_issues\<close> of the fetched repository metadata is false, and otherwise it is
  \<^verbatim>\<open>https://bitbucket.org/{user}/{repo}/issues\<close>, with the user and repository taken from the
  URL.
\<close>

theorem issues_field:
  assumes "fst (repo_info w url calls) = Inr (PDict d)"
  shows "\<exists>user_repo branch info has_issues.
      fst (user_repo_branch w url calls) = Inr (PStr user_repo, branch) \<and>
      response w (make_api_url w (PStr user_repo) '''') False = Inr info \<and>
      getitem info ''has_issues'' = Inr has_issues \<and>
      map_of d ''issues'' =
        Some (if truthy has_issues then PStr (''https://bitbucket.org/'' @ user_repo @ ''/issues'')
              else PNone) \<and>
      (map_of d ''issues'' = Some PNone) = (\<not> truthy has_issues)"
proof -
  from repo_info_fst_dict [OF assms]
  obtain user_repo branch info name description website owner readme has_issues where
    u: "fst (user_repo_branch w url calls) = Inr (PStr user_repo, branch)" and
    r: "response w (make_api_url w (PStr user_repo) '''') False = Inr info" and
    h: "getitem info ''has_issues'' = Inr has_issues" and
    d: "d = [(''name'', name),
           (''description'', py_or description (PStr ''No description provided'')),
           (''homepage'', py_or website (PStr url)),
           (''author'', owner),
           (''donate'', PStr (''https://www.gittip.com/on/bitbucket/'' @ fmt w owner @ ''/'')),
           (''readme'', readme),
           (''issues'', if truthy has_issues
                        then PStr (''https://bitbucket.org/'' @ user_repo @ ''/issues'')
                        else PNone)]"
    by blast
  have "map_of d ''issues'' =
        Some (if truthy has_issues then PStr (''https://bitbucket.org/'' @ user_repo @ ''/issues'')
              else PNone)"
    by (simp add: d)
  moreover from this have "(map_of d ''issues'' = Some PNone) = (\<not> truthy has_issues)"
    by simp
  ultimately show ?thesis
    using u r h by blast
qed

theorem issues_field_witness:
  "fst (repo_info sample_world ''https://bitbucket.org/user/quiet'' []) =
     Inr (PDict [(''name'', PStr ''quiet''),
         (''description'', PStr ''A quiet repository''),
         (''homepage'', PStr ''http://example.com/quiet''),
         (''author'', PStr ''user''),
         (''donate'', PStr ''https://www.gittip.com/on/bitbucket/user/''),
         (''readme'', PNone), (''issues'', PNone)]) \<and>
   (\<exists>user_repo branch info has_issues.
      fst (user_repo_branch sample_world ''https://bitbucket.org/user/quiet'' []) =
        Inr (PStr user_repo, branch) \<and>
      response sample_world (make_api_url sample_world (PStr user_repo) '''') False = Inr info \<and>
      getitem info ''has_issues'' = Inr has_issues \<and>
      map_of [(''name'', PStr ''quiet''),
         (''description'', PStr ''A quiet repository''),
         (''homepage'', PStr ''http://example.com/quiet''),
         (''author'', PStr ''user''),
         (''donate'', PStr ''https://www.gittip.com/on/bitbucket/user/''),
         (''readme'', PNone), (''issues'', PNone)] ''issues'' =
        Some (if truthy has_issues then PStr (''https://bitbucket.org/'' @ user_repo @ ''/issues'')
              else PNone) \<and>
      (map_of [(''name'', PStr ''quiet''),
         (''description'', PStr ''A quiet repository''),
         (''homepage'', PStr ''http://example.com/quiet''),
         (''author'', PStr ''user''),
         (''donate'', PStr ''https://www.gittip.com/on/bitbucket/user/''),
         (''readme'', PNone), (''issues'', PNone)] ''issues'' = Some PNone)
        = (\<not> truthy has_issues))"
proof -
  have h: "fst (repo_info sample_world ''https://bitbucket.org/user/quiet'' []) =
     Inr (PDict [(''name'', PStr ''quiet''),
         (''description'', PStr ''A quiet repository''),
         (''homepage'', PStr ''http://example.com/quiet''),
         (''author'', PStr ''user''),
         (''donate'', PStr ''https://www.gittip.com/on/bitbucket/user/''),
         (''readme'', PNone), (''issues'', PNone)])"
    by code_simp
  show ?thesis
    by (rule conjI [OF h issues_field [OF h]])
qed

text \<open>
  C8. In the dict that \<^verbatim>\<open>repo_info\<close> returns, \<^verbatim>\<open>description\<close> is the fetched description, or
  \<^verbatim>\<open>No description provided\<close> when that is empty, and \<^verbatim>\<open>homepage\<close> is the fetched website,
  or the URL the operation was called with when that is empty.
\<close>

theorem description_and_homepage_fallbacks:
  assumes "fst (repo_info w url calls) = Inr (PDict d)"
  shows "\<exists>user_repo branch info description website.
      fst (user_repo_branch w url calls) = Inr (PStr user_repo, branch) \<and>
      response w (make_api_url w (PStr user_repo) '''') False = Inr info \<and>
      getitem info ''description'' = Inr description \<and>
      getitem info ''website'' = Inr website \<and>
      map_of d ''description'' =
        Some (if truthy description then description else PStr ''No description provided'') \<and>
      map_of d ''homepage'' = Some (if truthy website then website else PStr url)"
proof -
  from repo_info_fst_dict [OF assms]
  obtain user_repo branch info name description website owner readme has_issues where
    u: "fst (user_repo_branch w url calls) = Inr (PStr user_repo, branch)" and
    r: "response w (make_api_url w (PStr user_repo) '''') False = Inr info" and
    g: "getitem info ''description'' = Inr description"
       "getitem info ''website'' = Inr website" and
    d: "d = [(''name'', name),
           (''description'', py_or description (PStr ''No description provided'')),
           (''homepage'', py_or website (PStr url)),
           (''author'', owner),
           (''donate'', PStr (''https://www.gittip.com/on/bitbucket/'' @ fmt w owner @ ''/'')),
           (''readme'', readme),
           (''issues'', if truthy has_issues
                        then PStr (''https://bitbucket.org/'' @ user_repo @ ''/issues'')
                        else PNone)]"
    by blast
  have "map_of d ''description'' =
        Some (if truthy description then description else PStr ''No description provided'')"
       "map_of d ''homepage'' = Some (if truthy website then website else PStr url)"
    by (simp_all add: d py_or_def)
  then show ?thesis
    using u r g by blast
qed

theorem description_and_homepage_fallbacks_witness:
  "fst (repo_info sample_world ''https://bitbucket.org/user/repo'' []) =
     Inr (PDict [(''name'', PStr ''repo''),
         (''description'', PStr ''No description provided''),
         (''homepage'', PStr ''https://bitbucket.org/user/repo''),
         (''author'', PStr ''user''),
         (''donate'', PStr ''https://www.gittip.com/on/bitbucket/user/''),
         (''readme'', PStr ''https://bitbucket.org/user/repo/raw/master/README.MD''),
         (''issues'', PStr ''https://bitbucket.org/user/repo/issues'')]) \<and>
   (\<exists>user_repo branch info description website.
      fst (user_repo_branch sample_world ''https://bitbucket.org/user/repo'' []) =
        Inr (PStr user_repo, branch) \<and>
      response sample_world (make_api_url sample_world (PStr user_repo) '''') False = Inr info \<and>
      getitem info ''description'' = Inr description \<and>
      getitem info ''website'' = Inr website \<and>
      map_of [(''name'', PStr ''repo''),
         (''description'', PStr ''No description provided''),
         (''homepage'', PStr ''https://bitbucket.org/user/repo''),
         (''author'', PStr ''user''),
         (''donate'', PStr ''https://www.gittip.com/on/bitbucket/user/''),
         (''readme'', PStr ''https://bitbucket.org/user/repo/raw/master/README.MD''),
         (''issues'', PStr ''https://bitbucket.org/user/repo/issues'')] ''description'' =
        Some (if truthy description then description else PStr ''No description provided'') \<and>
      map_of [(''name'', PStr ''repo''),
         (''description'', PStr ''No description provided''),
         (''homepage'', PStr ''https://bitbucket.org/user/repo''),
         (''author'', PStr ''user''),
         (''donate'', PStr ''https://www.gittip.com/on/bitbucket/user/''),
         (''readme'', PStr ''https://bitbucket.org/user/repo/raw/master/README.MD''),
         (''issues'', PStr ''https://bitbucket.org/user/repo/issues'')] ''homepage'' =
        Some (if truthy website then website else PStr ''https://bitbucket.org/user/repo''))"
proof -
  have h: "fst (repo_info sample_world ''https://bitbucket.org/user/repo'' []) =
     Inr (PDict [(''name'', PStr ''repo''),
         (''description'', PStr ''No description provided''),
         (''homepage'', PStr ''https://bitbucket.org/user/repo''),
         (''author'', PStr ''user''),
         (''donate'', PStr ''https://www.gittip.com/on/bitbucket/user/''),
         (''readme'', PStr ''https://bitbucket.org/user/repo/raw/master/README.MD''),
         (''issues'', PStr ''https://bitbucket.org/user/repo/issues'')])"
    by code_simp
  show ?thesis
    by (rule conjI [OF h description_and_homepage_fallbacks [OF h]])
qed

subsection \<open>The download link\<close>

lemma changeset_info_returns:
  assumes "changeset_info w user_repo commit version calls = (Inr x, calls')"
  shows "\<exists>info timestamp commit_date v.
      response w (make_api_url w user_repo (''/changesets/'' @ fmt w commit)) False = Inr info \<and>
      getitem info ''timestamp'' = Inr timestamp \<and>
      slice_0_19 timestamp = Inr commit_date \<and>
      x = PDict [(''user_repo'', user_repo), (''timestamp'', commit_date),
                 (''commit'', commit), (''version'', v)]"
  using assms
  by (auto simp: changeset_info_def io_defs Let_def split: sum.splits if_splits)

lemma resolve_commit_early:
  assumes "resolve_commit w url calls = (Inr (Inl early), calls')"
  shows "early = PBool False \<or> early = PNone \<or> (\<exists>s. early = PStr s)"
proof (cases "re_match tags_re url")
  case None
  with assms show ?thesis
    by (auto simp: resolve_commit_def io_defs
        split: sum.splits prod.splits if_splits dest: user_repo_branch_str)
next
  case (Some m)
  with assms show ?thesis
    by (auto simp: resolve_commit_def io_defs Let_def split: sum.splits prod.splits if_splits)
qed

text \<open>
  C9. Whenever \<^verbatim>\<open>download_info\<close> returns a dict, its \<^verbatim>\<open>url\<close> is
  \<^verbatim>\<open>https://bitbucket.org/{user_repo}/get/{commit}.zip\<close>, built from the owner/repo and the
  branch or tag name that \<^verbatim>\<open>_commit_info\<close> settled on, and its \<^verbatim>\<open>date\<close> is the timestamp of
  the fetched changeset cut to its first 19 characters, which is the timestamp to the second.
\<close>

theorem download_url_and_date:
  assumes "fst (download_info w url calls) = Inr (PDict d)"
  shows "\<exists>user_repo commit version info timestamp commit_date.
      fst (resolve_commit w url calls) = Inr (Inr (user_repo, commit, version)) \<and>
      response w (make_api_url w user_repo (''/changesets/'' @ fmt w commit)) False = Inr info \<and>
      getitem info ''timestamp'' = Inr timestamp \<and>
      slice_0_19 timestamp = Inr commit_date \<and>
      map_of d ''url'' =
        Some (PStr (''https://bitbucket.org/'' @ fmt w user_repo @ ''/get/'' @ fmt w commit
                    @ ''.zip'')) \<and>
      map_of d ''date'' = Some commit_date \<and>
      (\<forall>t. timestamp = PStr t \<longrightarrow> map_of d ''date'' = Some (PStr (take 19 t)))"
proof -
  obtain r1 calls1 where rc: "resolve_commit w url calls = (r1, calls1)"
    by (cases "resolve_commit w url calls")
  show ?thesis
  proof (cases r1)
    case (Inl e)
    with assms rc show ?thesis
      by (simp add: download_info_def commit_info_def bind_def)
  next
    case (Inr resolved)
    show ?thesis
    proof (cases resolved)
      case (Inl early)
      have "resolve_commit w url calls = (Inr (Inl early), calls1)"
        using rc Inr Inl by simp
      from resolve_commit_early [OF this] assms rc Inr Inl show ?thesis
        by (auto simp: download_info_def commit_info_def bind_def return_def lift_def
            split: if_splits)
    next
      case (Inr triple)
      obtain user_repo commit version where t: "triple = (user_repo, commit, version)"
        by (cases triple)
      have res: "resolve_commit w url calls = (Inr (Inr (user_repo, commit, version)), calls1)"
        using rc \<open>r1 = Inr resolved\<close> Inr t by simp
      obtain r2 calls2 where
        ch: "changeset_info w user_repo commit version calls1 = (r2, calls2)"
        by (cases "changeset_info w user_repo commit version calls1")
      show ?thesis
      proof (cases r2)
        case (Inl e)
        with assms res ch show ?thesis
          by (simp add: download_info_def commit_info_def bind_def)
      next
        case (Inr x)
        with ch have "changeset_info w user_repo commit version calls1 = (Inr x, calls2)"
          by simp
        from changeset_info_returns [OF this]
        obtain info timestamp commit_date v where
          i: "response w (make_api_url w user_repo (''/changesets/'' @ fmt w commit)) False
                = Inr info"
             "getitem info ''timestamp'' = Inr timestamp"
             "slice_0_19 timestamp = Inr commit_date" and
          x: "x = PDict [(''user_repo'', user_repo), (''timestamp'', commit_date),
                         (''commit'', commit), (''version'', v)]"
          by blast
        have d: "d = [(''version'', v),
                      (''url'', PStr (''https://bitbucket.org/'' @ fmt w user_repo @ ''/get/''
                                      @ fmt w commit @ ''.zip'')),
                      (''date'', commit_date)]"
          using assms res ch Inr x
          by (simp add: download_info_def commit_info_def bind_def return_def lift_def)
        have "map_of d ''url'' =
          Some (PStr (''https://bitbucket.org/'' @ fmt w user_repo @ ''/get/'' @ fmt w commit
                      @ ''.zip''))"
          "map_of d ''date'' = Some commit_date"
          by (simp_all add: d)
        moreover have
          "\<forall>t. timestamp = PStr t \<longrightarrow> map_of d ''date'' = Some (PStr (take 19 t))"
          using i(3) by (auto simp: d)
        moreover have "fst (resolve_commit w url calls) = Inr (Inr (user_repo, commit, version))"
          using res by simp
        ultimately show ?thesis
          using i by blast
      qed
    qed
  qed
qed

theorem download_url_and_date_witness:
  "fst (download_info sample_world ''https://bitbucket.org/user/repo/#tags'' []) =
     Inr (PDict [(''version'', PStr ''2.0.0''),
                 (''url'', PStr ''https://bitbucket.org/user/repo/get/v2.0.0.zip''),
                 (''date'', PStr ''2014-03-12 10:00:00'')]) \<and>
   (\<exists>user_repo commit version info timestamp commit_date.
      fst (resolve_commit sample_world ''https://bitbucket.org/user/repo/#tags'' []) =
        Inr (Inr (user_repo, commit, version)) \<and>
      response sample_world
        (make_api_url sample_world user_repo (''/changesets/'' @ fmt sample_world commit)) False
        = Inr info \<and>
      getitem info ''timestamp'' = Inr timestamp \<and>
      slice_0_19 timestamp = Inr commit_date \<and>
      map_of [(''version'', PStr ''2.0.0''),
              (''url'', PStr ''https://bitbucket.org/user/repo/get/v2.0.0.zip''),
              (''date'', PStr ''2014-03-12 10:00:00'')] ''url'' =
        Some (PStr (''https://bitbucket.org/'' @ fmt sample_world user_repo @ ''/get/''
                    @ fmt sample_world commit @ ''.zip'')) \<and>
      map_of [(''version'', PStr ''2.0.0''),
              (''url'', PStr ''https://bitbucket.org/user/repo/get/v2.0.0.zip''),
              (''date'', PStr ''2014-03-12 10:00:00'')] ''date'' = Some commit_date \<and>
      (\<forall>t. timestamp = PStr t \<longrightarrow>
         map_of [(''version'', PStr ''2.0.0''),
              (''url'', PStr ''https://bitbucket.org/user/repo/get/v2.0.0.zip''),
              (''date'', PStr ''2014-03-12 10:00:00'')] ''date'' = Some (PStr (take 19 t))))"
proof -
  have h: "fst (download_info sample_world ''https://bitbucket.org/user/repo/#tags'' []) =
     Inr (PDict [(''version'', PStr ''2.0.0''),
                 (''url'', PStr ''https://bitbucket.org/user/repo/get/v2.0.0.zip''),
                 (''date'', PStr ''2014-03-12 10:00:00'')])"
    by code_simp
  show ?thesis
    by (rule conjI [OF h download_url_and_date [OF h]])
qed

subsection \<open>Matching a URL\<close>

lemma rmatch_star_run:
  assumes "\<forall>c \<in> set s. accepts a c"
    and "t = [] \<or> \<not> accepts a (hd t)"
    and "rmatch r (pre @ s) t opens caps = Some m"
  shows "rmatch (Star a # r) pre (s @ t) opens caps = Some m"
  using assms
proof (induction s arbitrary: pre)
  case Nil
  then show ?case
    by (cases t) auto
next
  case (Cons c s)
  have "rmatch (Star a # r) (pre @ [c]) (s @ t) opens caps = Some m"
    using Cons.prems by (intro Cons.IH) auto
  with Cons.prems(1) show ?case
    by simp
qed

lemma rmatch_plus_run:
  assumes "s \<noteq> []" and "\<forall>c \<in> set s. accepts a c"
    and "t = [] \<or> \<not> accepts a (hd t)"
    and "rmatch r (pre @ s) t opens caps = Some m"
  shows "rmatch (Plus a # r) pre (s @ t) opens caps = Some m"
proof (cases s)
  case Nil
  with assms(1) show ?thesis by simp
next
  case (Cons c s')
  have "rmatch (Star a # r) (pre @ [c]) (s' @ t) opens caps = Some m"
    using assms(2,3,4) Cons by (intro rmatch_star_run) auto
  with assms(2) Cons show ?thesis
    by simp
qed

lemma rmatch_host_re:
  assumes "rmatch r ''https://bitbucket.org/'' rest opens caps = Some m"
  shows "rmatch (host_re @ r) [] (''https://bitbucket.org/'' @ rest) opens caps = Some m"
  using assms by (simp add: host_re_def lit_def)

lemma repo_re_tags_fragment:
  assumes "user \<noteq> []" and "CHR ''/'' \<notin> set user" and "repo \<noteq> []" and "CHR ''/'' \<notin> set repo"
  shows "re_match repo_re (''https://bitbucket.org/'' @ user @ ''/'' @ repo @ ''#tags'') =
     Some (''https://bitbucket.org/'' @ user @ ''/'' @ repo @ ''#tags'', [],
           [(1, user @ ''/'' @ repo @ ''#tags'')])"
proof -
  let ?pre = "''https://bitbucket.org/''"
  let ?opens = "[(1::nat, 22::nat)]"
  let ?m = "(?pre @ user @ ''/'' @ repo @ ''#tags'', [], [(1::nat, user @ ''/'' @ repo @ ''#tags'')])"
  have tail: "rmatch [Close 1, Opt (Chr CHR ''/''), Eos]
      ((?pre @ user @ ''/'') @ (repo @ ''#tags'')) [] ?opens [] = Some ?m"
    by simp
  have repo_part: "rmatch [Plus (NotIn ''/''), Close 1, Opt (Chr CHR ''/''), Eos]
      (?pre @ user @ ''/'') ((repo @ ''#tags'') @ []) ?opens [] = Some ?m"
    using assms(3,4) by (intro rmatch_plus_run tail) auto
  have slash: "rmatch [One (Chr CHR ''/''), Plus (NotIn ''/''), Close 1, Opt (Chr CHR ''/''), Eos]
      (?pre @ user) (''/'' @ repo @ ''#tags'') ?opens [] = Some ?m"
    using repo_part by simp
  have user_part: "rmatch [Plus (NotIn ''/''), One (Chr CHR ''/''), Plus (NotIn ''/''), Close 1,
        Opt (Chr CHR ''/''), Eos]
      ?pre (user @ (''/'' @ repo @ ''#tags'')) ?opens [] = Some ?m"
    using assms(1,2) by (intro rmatch_plus_run slash) auto
  have len: "length ?pre = 22"
    by simp
  have opened: "rmatch [Open 1, Plus (NotIn ''/''), One (Chr CHR ''/''), Plus (NotIn ''/''),
        Close 1, Opt (Chr CHR ''/''), Eos]
      ?pre (user @ (''/'' @ repo @ ''#tags'')) [] [] = Some ?m"
    by (subst rmatch.simps(6)) (simp only: len user_part)
  show ?thesis
    unfolding re_match_def repo_re_def by (rule rmatch_host_re [OF opened])
qed

lemma repo_info_after_repo_match:
  assumes "re_match repo_re url = Some m" and "group m 1 = PStr ur" and "ur \<noteq> []"
  shows "fst (repo_info w url calls) \<noteq> Inr PNone \<and>
    (\<exists>more. snd (repo_info w url calls) =
       calls @ (make_api_url w (PStr ur) ''/main-branch'', True) # more) \<and>
    (\<forall>info branch.
       response w (make_api_url w (PStr ur) ''/main-branch'') True = Inr info \<longrightarrow>
       getitem info ''name'' = Inr branch \<longrightarrow>
       (\<exists>more. snd (repo_info w url calls) =
          calls @ [(make_api_url w (PStr ur) ''/main-branch'', True),
                   (make_api_url w (PStr ur) '''', False)] @ more))"
  using assms
  by (auto simp: repo_info_def user_repo_branch_def main_branch_name_def readme_url_def
      io_defs Let_def split: sum.splits prod.splits)

text \<open>
  C5. \<^verbatim>\<open>repo_info\<close> does not return \<^verbatim>\<open>None\<close> for a URL
  \<^verbatim>\<open>https://bitbucket.org/{user}/{repo}#tags\<close> with no slash before the fragment: the
  repository segment \<^verbatim>\<open>[^/]+\<close> of the root pattern admits \<^verbatim>\<open>#\<close>, so the URL is taken for a
  repository root whose name ends in \<^verbatim>\<open>#tags\<close>, and the operation goes on: it asks for the
  main branch of that name and, once it has one, for the repository's metadata.
\<close>

theorem repo_info_accepts_tags_fragment:
  assumes "user \<noteq> []" and "CHR ''/'' \<notin> set user" and "repo \<noteq> []" and "CHR ''/'' \<notin> set repo"
  shows "re_match repo_re (''https://bitbucket.org/'' @ user @ ''/'' @ repo @ ''#tags'') =
           Some (''https://bitbucket.org/'' @ user @ ''/'' @ repo @ ''#tags'', [],
                 [(1, user @ ''/'' @ repo @ ''#tags'')]) \<and>
         fst (repo_info w (''https://bitbucket.org/'' @ user @ ''/'' @ repo @ ''#tags'') calls)
           \<noteq> Inr PNone \<and>
         (\<exists>more. snd (repo_info w (''https://bitbucket.org/'' @ user @ ''/'' @ repo @ ''#tags'') calls)
            = calls @ (''https://api.bitbucket.org/1.0/repositories/'' @ user @ ''/'' @ repo
                        @ ''#tags/main-branch'', True) # more) \<and>
         (\<forall>info branch.
            response w (''https://api.bitbucket.org/1.0/repositories/'' @ user @ ''/'' @ repo
                        @ ''#tags/main-branch'') True = Inr info \<longrightarrow>
            getitem info ''name'' = Inr branch \<longrightarrow>
            (\<exists>more. snd (repo_info w (''https://bitbucket.org/'' @ user @ ''/'' @ repo @ ''#tags'')
                            calls)
               = calls @ [(''https://api.bitbucket.org/1.0/repositories/'' @ user @ ''/'' @ repo
                            @ ''#tags/main-branch'', True),
                          (''https://api.bitbucket.org/1.0/repositories/'' @ user @ ''/'' @ repo
                            @ ''#tags'', False)] @ more))"
proof -
  let ?url = "''https://bitbucket.org/'' @ user @ ''/'' @ repo @ ''#tags''"
  let ?ur = "user @ ''/'' @ repo @ ''#tags''"
  have m: "re_match repo_re ?url = Some (?url, [], [(1, ?ur)])"
    by (rule repo_re_tags_fragment [OF assms])
  have g: "group (?url, [], [(1, ?ur)]) 1 = PStr ?ur"
    by (simp add: group_def)
  have n: "?ur \<noteq> []"
    by simp
  have mbu: "make_api_url w (PStr ?ur) ''/main-branch'' =
      ''https://api.bitbucket.org/1.0/repositories/'' @ user @ ''/'' @ repo @ ''#tags/main-branch''"
    by (simp add: make_api_url_def fmt_def)
  have apiu: "make_api_url w (PStr ?ur) '''' =
      ''https://api.bitbucket.org/1.0/repositories/'' @ user @ ''/'' @ repo @ ''#tags''"
    by (simp add: make_api_url_def fmt_def)
  show ?thesis
    using m repo_info_after_repo_match [OF m g n, of w calls, unfolded mbu apiu]
    by (rule conjI)
qed

theorem repo_info_accepts_tags_fragment_witness:
  "''user'' \<noteq> [] \<and> CHR ''/'' \<notin> set ''user'' \<and> ''repo'' \<noteq> [] \<and> CHR ''/'' \<notin> set ''repo'' \<and>
   re_match repo_re ''https://bitbucket.org/user/repo#tags'' =
     Some (''https://bitbucket.org/user/repo#tags'', [], [(1, ''user/repo#tags'')]) \<and>
   fst (repo_info sample_world ''https://bitbucket.org/user/repo#tags'' []) \<noteq> Inr PNone \<and>
   (\<exists>more. snd (repo_info sample_world ''https://bitbucket.org/user/repo#tags'' []) =
      (''https://api.bitbucket.org/1.0/repositories/user/repo#tags/main-branch'', True) # more)"
proof -
  have a: "''user'' \<noteq> []" "CHR ''/'' \<notin> set ''user''" "''repo'' \<noteq> []" "CHR ''/'' \<notin> set ''repo''"
    by simp_all
  show ?thesis
    using repo_info_accepts_tags_fragment [OF a, of sample_world "[]"] a
    by simp
qed

subsection \<open>Failed fetches\<close>

lemma propagates_return [intro!]: "propagates w (return x)"
  by (simp add: propagates_def return_def)

lemma propagates_lift [intro!]: "propagates w (lift r)"
  by (simp add: propagates_def lift_def)

lemma propagates_fetch_json [intro!]: "propagates w (fetch_json w url c)"
  by (simp add: propagates_def fetch_json_def)

lemma propagates_bind [intro!]:
  assumes m: "propagates w m" and f: "\<And>x. propagates w (f x)"
  shows "propagates w (bind m f)"
  unfolding propagates_def
proof
  fix calls
  obtain r1 c1 where run: "m calls = (r1, c1)"
    by (cases "m calls")
  from m obtain n1 where n1: "c1 = calls @ n1"
    and p1: "\<And>i e. i < length n1 \<Longrightarrow> response w (fst (n1 ! i)) (snd (n1 ! i)) = Inl e
               \<Longrightarrow> Suc i = length n1 \<and> r1 = Inl e"
    using run unfolding propagates_def by (metis fst_conv snd_conv)
  show "\<exists>new. snd (bind m f calls) = calls @ new \<and>
        (\<forall>i < length new. \<forall>e. response w (fst (new ! i)) (snd (new ! i)) = Inl e \<longrightarrow>
           Suc i = length new \<and> fst (bind m f calls) = Inl e)"
  proof (cases r1)
    case (Inl e1)
    then have b: "bind m f calls = (Inl e1, c1)"
      using run by (simp add: bind_def)
    show ?thesis
      using n1 p1 Inl by (intro exI [of _ n1]) (simp add: b)
  next
    case (Inr x)
    then have b: "bind m f calls = f x c1"
      using run by (simp add: bind_def)
    from f [of x] obtain n2 where n2: "snd (f x c1) = c1 @ n2"
      and p2: "\<And>i e. i < length n2 \<Longrightarrow> response w (fst (n2 ! i)) (snd (n2 ! i)) = Inl e
               \<Longrightarrow> Suc i = length n2 \<and> fst (f x c1) = Inl e"
      unfolding propagates_def by metis
    have ok1: "\<And>i e. i < length n1 \<Longrightarrow> response w (fst (n1 ! i)) (snd (n1 ! i)) \<noteq> Inl e"
      using p1 Inr by blast
    show ?thesis
    proof (intro exI [of _ "n1 @ n2"] conjI)
      show "snd (bind m f calls) = calls @ n1 @ n2"
        using n2 by (simp add: b n1)
    next
      show "\<forall>i < length (n1 @ n2). \<forall>e.
              response w (fst ((n1 @ n2) ! i)) (snd ((n1 @ n2) ! i)) = Inl e \<longrightarrow>
              Suc i = length (n1 @ n2) \<and> fst (bind m f calls) = Inl e"
      proof (intro allI impI)
        fix i e
        assume i: "i < length (n1 @ n2)"
          and e: "response w (fst ((n1 @ n2) ! i)) (snd ((n1 @ n2) ! i)) = Inl e"
        have ge: "\<not> i < length n1"
          using ok1 e by (auto simp: nth_append)
        then have "i - length n1 < length n2"
          and "response w (fst (n2 ! (i - length n1))) (snd (n2 ! (i - length n1))) = Inl e"
          using i e by (auto simp: nth_append)
        from p2 [OF this] ge
        show "Suc i = length (n1 @ n2) \<and> fst (bind m f calls) = Inl e"
          by (auto simp: b)
      qed
    qed
  qed
qed

lemma propagates_main_branch_name: "propagates w (main_branch_name w user_repo)"
  unfolding main_branch_name_def Let_def by blast

lemma propagates_user_repo_branch: "propagates w (user_repo_branch w url)"
  unfolding user_repo_branch_def Let_def
  by (auto intro: propagates_main_branch_name split: option.splits)

lemma propagates_readme_url: "propagates w (readme_url w user_repo branch prefer_cached)"
  unfolding readme_url_def Let_def by blast

lemma propagates_changeset_info: "propagates w (changeset_info w user_repo commit version)"
  unfolding changeset_info_def Let_def by auto

lemma propagates_resolve_commit: "propagates w (resolve_commit w url)"
  unfolding resolve_commit_def Let_def
  by (auto intro: propagates_user_repo_branch split: option.splits)

lemma propagates_commit_info: "propagates w (commit_info w url)"
  unfolding commit_info_def
  by (auto intro: propagates_resolve_commit propagates_changeset_info split: sum.splits)

lemma propagates_download_info: "propagates w (download_info w url)"
  unfolding download_info_def
  by (auto intro: propagates_commit_info)

lemma propagates_repo_info: "propagates w (repo_info w url)"
  unfolding repo_info_def Let_def
  by (auto intro: propagates_user_repo_branch propagates_readme_url)

lemma propagates_last:
  assumes p: "propagates w m"
    and run: "m calls = (r, calls')"
    and mem: "(u, c) \<in> set (drop (length calls) calls')"
    and err: "response w u c = Inl e"
  shows "r = Inl e \<and>
     (\<exists>before. calls' = calls @ before @ [(u, c)] \<and>
        (\<forall>p \<in> set before. \<exists>v. response w (fst p) (snd p) = Inr v))"
proof -
  from p run obtain new where new: "calls' = calls @ new"
    and inv: "\<And>i e. i < length new \<Longrightarrow> response w (fst (new ! i)) (snd (new ! i)) = Inl e
               \<Longrightarrow> Suc i = length new \<and> r = Inl e"
    unfolding propagates_def by (metis fst_conv snd_conv)
  from mem new have "(u, c) \<in> set new"
    by simp
  then obtain i where i: "i < length new" "new ! i = (u, c)"
    by (auto simp: in_set_conv_nth)
  from inv [OF i(1), of e] i(2) err have last: "Suc i = length new" and r: "r = Inl e"
    by simp_all
  have split: "new = butlast new @ [(u, c)]"
  proof -
    have "new \<noteq> []" using i(1) by auto
    moreover have "last new = (u, c)"
      using i last by (metis \<open>new \<noteq> []\<close> diff_Suc_1 last_conv_nth)
    ultimately show ?thesis
      by (metis append_butlast_last_id)
  qed
  have ok: "\<exists>v. response w (fst p) (snd p) = Inr v" if "p \<in> set (butlast new)" for p
  proof -
    from that obtain j where j: "j < length (butlast new)" "butlast new ! j = p"
      by (auto simp: in_set_conv_nth)
    then have jn: "j < length new" "new ! j = p" "Suc j \<noteq> length new"
      by (auto simp: nth_butlast)
    show ?thesis
    proof (cases "response w (fst p) (snd p)")
      case (Inl e')
      with inv [OF jn(1), of e'] jn(2,3) show ?thesis
        by simp
    next
      case (Inr v)
      then show ?thesis by blast
    qed
  qed
  have "calls' = calls @ butlast new @ [(u, c)]"
    using new split by simp
  with ok r show ?thesis
    by blast
qed

text \<open>
  C10. If a fetch that \<^verbatim>\<open>download_info\<close> or \<^verbatim>\<open>repo_info\<close> issues fails, the operation raises
  that very exception: the failed fetch is the last one the operation issued, every fetch
  before it was answered, and no value is returned. So nothing is retried, wrapped or caught,
  and there is no partial result.
\<close>

theorem fetch_error_propagates:
  assumes "operation = download_info \<or> operation = repo_info"
    and "operation w url calls = (r, calls')"
    and "(u, c) \<in> set (drop (length calls) calls')"
    and "response w u c = Inl e"
  shows "r = Inl e \<and>
     (\<exists>before. calls' = calls @ before @ [(u, c)] \<and>
        (\<forall>p \<in> set before. \<exists>v. response w (fst p) (snd p) = Inr v))"
proof -
  have "propagates w (operation w url)"
    using assms(1) propagates_download_info propagates_repo_info by auto
  from propagates_last [OF this assms(2,3,4)] show ?thesis .
qed

theorem fetch_error_propagates_witness:
  "repo_info sample_world ''https://bitbucket.org/user/quiet/src/nobranch'' [] =
     (Inl (DownloaderException ''HTTP Error 404''),
      [(''https://api.bitbucket.org/1.0/repositories/user/quiet'', False),
       (''https://api.bitbucket.org/1.0/repositories/user/quiet/src/nobranch/'', False)]) \<and>
   response sample_world ''https://api.bitbucket.org/1.0/repositories/user/quiet/src/nobranch/''
     False = Inl (DownloaderException ''HTTP Error 404'') \<and>
   (\<exists>before.
      [(''https://api.bitbucket.org/1.0/repositories/user/quiet'', False),
       (''https://api.bitbucket.org/1.0/repositories/user/quiet/src/nobranch/'', False)] =
      [] @ before
         @ [(''https://api.bitbucket.org/1.0/repositories/user/quiet/src/nobranch/'', False)] \<and>
      (\<forall>p \<in> set before. \<exists>v. response sample_world (fst p) (snd p) = Inr v))"
proof -
  have run: "repo_info sample_world ''https://bitbucket.org/user/quiet/src/nobranch'' [] =
     (Inl (DownloaderException ''HTTP Error 404''),
      [(''https://api.bitbucket.org/1.0/repositories/user/quiet'', False),
       (''https://api.bitbucket.org/1.0/repositories/user/quiet/src/nobranch/'', False)])"
    by code_simp
  have mem: "(''https://api.bitbucket.org/1.0/repositories/user/quiet/src/nobranch/'', False)
      \<in> set (drop (length ([] :: call list))
           [(''https://api.bitbucket.org/1.0/repositories/user/quiet'', False),
            (''https://api.bitbucket.org/1.0/repositories/user/quiet/src/nobranch/'', False)])"
    by simp
  have err: "response sample_world
      ''https://api.bitbucket.org/1.0/repositories/user/quiet/src/nobranch/'' False =
      Inl (DownloaderException ''HTTP Error 404'')"
    by code_simp
  have op: "repo_info = download_info \<or> repo_info = repo_info"
    by simp
  from fetch_error_propagates [OF op run mem err] run err show ?thesis
    by blast
qed

end
